theory Spec2Isabelle
  imports Complex_Main "HOL-Library.Sublist" "HOL-Library.Log_Nat"
begin

section \<open>Python values used by the pipeline\<close>

text \<open>
  The pipeline of \<^verbatim>\<open>egx30_stock_pipeline.py\<close> has two Python callables,
  \<^verbatim>\<open>extract_stock_data\<close> and \<^verbatim>\<open>validate_and_prepare\<close>. Both work on
  Python strings, on the value \<^verbatim>\<open>json.loads\<close> returns, and on files under
  \<^verbatim>\<open>/tmp\<close>. A Python \<^verbatim>\<open>str\<close> is a \<^typ>\<open>string\<close> here: a list of characters
  whose code points are below 256. Every exception the code can meet is a value of
  \<open>py_error\<close>; all of them are subclasses of Python's \<^verbatim>\<open>Exception\<close>.
\<close>

datatype py_error =
    ValueError string
  | AttributeError
  | KeyError
  | IndexError
  | TypeError
  | URLError
  | TimeoutError
  | UnicodeDecodeError
  | JSONDecodeError
  | FileNotFoundError

text \<open>
  Python floats are IEEE doubles. Their type is left open as \<open>'f\<close>, and the four
  builtin operations the pipeline applies to a float are the fields of \<open>float_ops\<close>:
  \<^verbatim>\<open>float(s)\<close> on a string (\<open>None\<close> is its \<^verbatim>\<open>ValueError\<close>), \<^verbatim>\<open>str(x)\<close>,
  \<^verbatim>\<open>round(x, 2)\<close> and the test \<^verbatim>\<open>x == 0.0\<close> behind truthiness.
\<close>

record 'f float_ops =
  float_of_str :: "string \<Rightarrow> 'f option"
  str_of_float :: "'f \<Rightarrow> string"
  round2_float :: "'f \<Rightarrow> 'f"
  float_is_zero :: "'f \<Rightarrow> bool"

subsection \<open>String methods\<close>

text \<open>\<^verbatim>\<open>str.isspace\<close> on one character, for code points below 256.\<close>

definition is_space :: "char \<Rightarrow> bool" where
  "is_space c = (c \<in> set [CHR 0x09, CHR 0x0A, CHR 0x0B, CHR 0x0C, CHR 0x0D,
                            CHR 0x1C, CHR 0x1D, CHR 0x1E, CHR 0x1F, CHR 0x20,
                            CHR 0x85, CHR 0xA0])"

text \<open>\<^verbatim>\<open>s.strip()\<close>: whitespace is removed at both ends.\<close>

definition py_strip :: "string \<Rightarrow> string" where
  "py_strip s = rev (dropWhile is_space (rev (dropWhile is_space s)))"

text \<open>\<^verbatim>\<open>s.split(',')\<close>: one field more than there are commas; never empty.\<close>

fun py_split :: "string \<Rightarrow> string list" where
  "py_split [] = [[]]"
| "py_split (c # cs) =
     (if c = CHR '','' then [] # py_split cs
      else (case py_split cs of
              [] \<Rightarrow> [[c]]
            | p # ps \<Rightarrow> (c # p) # ps))"

text \<open>
  \<^verbatim>\<open>s.replace(old, new)\<close>: the occurrences of \<open>old\<close> are replaced from left to
  right, the search resuming after each replaced occurrence. With an empty \<open>old\<close>,
  \<open>new\<close> is put before every character and at the end.
\<close>

function py_replace :: "string \<Rightarrow> string \<Rightarrow> string \<Rightarrow> string" where
  "py_replace old new [] = (if old = [] then new else [])"
| "py_replace old new (c # cs) =
     (if old = [] then new @ c # py_replace old new cs
      else if prefix old (c # cs)
        then new @ py_replace old new (drop (length old) (c # cs))
      else c # py_replace old new cs)"
  by pat_completeness auto
termination
  by (relation "measure (\<lambda>(old, new, s). length s)") auto

text \<open>
  Iterating over a text file yields its lines, each with its newline; a last line
  without newline is yielded as it is. The argument is the text of the file as
  Python reads it in text mode.
\<close>

fun py_lines :: "string \<Rightarrow> string list" where
  "py_lines [] = []"
| "py_lines (c # cs) =
     (if c = CHR 0x0A then [c] # py_lines cs
      else (case py_lines cs of
              [] \<Rightarrow> [[c]]
            | l # ls \<Rightarrow> (c # l) # ls))"

text \<open>\<^verbatim>\<open>str(n)\<close> for an integer: decimal digits, with a minus sign when negative.\<close>

fun str_of_nat :: "nat \<Rightarrow> string" where
  "str_of_nat n =
     (if n < 10 then [char_of (48 + n)]
      else str_of_nat (n div 10) @ [char_of (48 + n mod 10)])"

definition str_of_int :: "int \<Rightarrow> string" where
  "str_of_int i = (if i < 0 then CHR ''-'' # str_of_nat (nat (- i)) else str_of_nat (nat i))"

section \<open>The validation stage\<close>

text \<open>
  \<^verbatim>\<open>validate_and_prepare\<close> reads the raw artifact, keeps the well-formed rows,
  removes duplicate symbols, writes the clean dataset and writes the load script.
  A row of \<^verbatim>\<open>data\<close> is the dictionary \<^verbatim>\<open>{'symbol': ..., 'price': ...}\<close>.
\<close>

record 'f row =
  row_symbol :: string
  row_price :: 'f

text \<open>
  The loop \<^verbatim>\<open>for line in f\<close>: a line is split at its commas after stripping;
  with exactly three parts and a price that \<^verbatim>\<open>float\<close> accepts it is appended
  to \<^verbatim>\<open>data\<close>; a \<^verbatim>\<open>ValueError\<close> of \<^verbatim>\<open>float\<close> is caught and the loop goes on.
\<close>

fun read_rows :: "'f float_ops \<Rightarrow> string list \<Rightarrow> 'f row list \<Rightarrow> 'f row list" where
  "read_rows ops [] data = data"
| "read_rows ops (line # lines) data =
     (let parts = py_split (py_strip line) in
      if length parts = 3 then
        (case float_of_str ops (parts ! 2) of
           Some x \<Rightarrow>
             read_rows ops lines (data @ [\<lparr>row_symbol = parts ! 1, row_price = x\<rparr>])
         | None \<Rightarrow> read_rows ops lines data)
      else read_rows ops lines data)"

text \<open>
  The loop \<^verbatim>\<open>for row in data\<close> that removes duplicates, with its two variables
  \<^verbatim>\<open>seen\<close> and \<^verbatim>\<open>unique_data\<close>.
\<close>

fun remove_duplicates ::
  "'f row list \<Rightarrow> string set \<Rightarrow> 'f row list \<Rightarrow> 'f row list" where
  "remove_duplicates [] seen unique_data = unique_data"
| "remove_duplicates (row # rows) seen unique_data =
     (if row_symbol row \<notin> seen
      then remove_duplicates rows (insert (row_symbol row) seen) (unique_data @ [row])
      else remove_duplicates rows seen unique_data)"

text \<open>
  \<^verbatim>\<open>data\<close> and \<^verbatim>\<open>unique_data\<close> for the text of a raw artifact; the header
  line is read and dropped first (\<^verbatim>\<open>f.readline()\<close>).
\<close>

definition data_lines :: "string \<Rightarrow> string list" where
  "data_lines content = drop 1 (py_lines content)"

definition raw_rows :: "'f float_ops \<Rightarrow> string \<Rightarrow> 'f row list" where
  "raw_rows ops content = read_rows ops (data_lines content) []"

definition clean_rows :: "'f float_ops \<Rightarrow> string \<Rightarrow> 'f row list" where
  "clean_rows ops content = remove_duplicates (raw_rows ops content) {} []"

text \<open>One line of the clean dataset: \<^verbatim>\<open>f"{row['symbol']},{row['price']}\n"\<close>.\<close>

definition hive_line :: "'f float_ops \<Rightarrow> 'f row \<Rightarrow> string" where
  "hive_line ops row =
     row_symbol row @ '','' @ str_of_float ops (row_price row) @ ''\<newline>''"

text \<open>The text of the load script, with its two interpolated values.\<close>

definition hql_text :: "string \<Rightarrow> string \<Rightarrow> string" where
  "hql_text hive_data execution_date =
     ''\<newline>'' @
     ''-- Step 1: Create staging table (TEXT format for CSV)\<newline>'' @
     ''CREATE TABLE IF NOT EXISTS egx30_staging (\<newline>'' @
     ''    stock_symbol STRING,\<newline>'' @
     ''    price DECIMAL(10,2)\<newline>'' @
     '')\<newline>'' @
     ''ROW FORMAT DELIMITED\<newline>'' @
     ''FIELDS TERMINATED BY ','\<newline>'' @
     ''STORED AS TEXTFILE;\<newline>'' @
     ''\<newline>'' @
     ''-- Step 2: Create final ORC table (partitioned)\<newline>'' @
     ''CREATE TABLE IF NOT EXISTS egx30_stocks (\<newline>'' @
     ''    stock_symbol STRING,\<newline>'' @
     ''    price DECIMAL(10,2)\<newline>'' @
     '')\<newline>'' @
     ''PARTITIONED BY (trade_date STRING)\<newline>'' @
     ''STORED AS ORC\<newline>'' @
     ''TBLPROPERTIES ('orc.compress'='SNAPPY');\<newline>'' @
     ''\<newline>'' @
     ''-- Step 3: Clear staging\<newline>'' @
     ''TRUNCATE TABLE egx30_staging;\<newline>'' @
     ''\<newline>'' @
     ''-- Step 4: Load CSV into staging\<newline>'' @
     ''LOAD DATA LOCAL INPATH '' @ [CHR 0x27] @ hive_data @ [CHR 0x27] @
       '' INTO TABLE egx30_staging;\<newline>'' @
     ''\<newline>'' @
     ''-- Step 5: Drop old partition\<newline>'' @
     ''ALTER TABLE egx30_stocks DROP IF EXISTS PARTITION (trade_date='' @
       [CHR 0x27] @ execution_date @ [CHR 0x27] @ '');\<newline>'' @
     ''\<newline>'' @
     ''-- Step 6: Insert from staging to final table\<newline>'' @
     ''INSERT INTO TABLE egx30_stocks PARTITION (trade_date='' @
       [CHR 0x27] @ execution_date @ [CHR 0x27] @ '')\<newline>'' @
     ''SELECT stock_symbol, price FROM egx30_staging;\<newline>'' @
     ''\<newline>'' @
     ''-- Step 7: Verify\<newline>'' @
     ''SELECT trade_date, COUNT(*) as record_count \<newline>'' @
     ''FROM egx30_stocks \<newline>'' @
     ''WHERE trade_date='' @ [CHR 0x27] @ execution_date @ [CHR 0x27] @ ''\<newline>'' @
     ''GROUP BY trade_date;\<newline>''"

text \<open>
  The files under \<^verbatim>\<open>/tmp\<close> are a map from path to text. Opening a file for
  writing creates or replaces it; opening a missing file for reading raises.
\<close>

type_synonym files = "string \<rightharpoonup> string"

definition hive_data_path :: "string \<Rightarrow> string" where
  "hive_data_path execution_date = ''/tmp/hive_data_'' @ execution_date @ ''.txt''"

definition hql_script_path :: "string \<Rightarrow> string" where
  "hql_script_path execution_date = ''/tmp/load_hive_'' @ execution_date @ ''.hql''"

text \<open>
  The stage itself. \<open>csv_path\<close> is what \<^verbatim>\<open>ti.xcom_pull\<close> hands over and
  \<open>execution_date\<close> is \<^verbatim>\<open>context['ds']\<close>. The result is the new state of the
  files with the returned path of the script, or the exception that ended the stage.
\<close>

definition validate_and_prepare ::
  "'f float_ops \<Rightarrow> files \<Rightarrow> string \<Rightarrow> string \<Rightarrow> py_error + (files \<times> string)" where
  "validate_and_prepare ops fs csv_path execution_date =
     (case fs csv_path of
        None \<Rightarrow> Inl FileNotFoundError
      | Some content \<Rightarrow>
          (let unique_data = clean_rows ops content;
               hive_data = hive_data_path execution_date;
               fs1 = fs(hive_data \<mapsto> concat (map (hive_line ops) unique_data));
               hql_script = hql_script_path execution_date;
               fs2 = fs1(hql_script \<mapsto> hql_text hive_data execution_date)
           in Inr (fs2, hql_script)))"

section \<open>The extraction stage\<close>

text \<open>
  The value \<^verbatim>\<open>json.loads\<close> returns: \<^verbatim>\<open>None\<close>, a bool, an int, a float, a
  string, a list or a dictionary with string keys. A dictionary is its list of
  items, looked up with \<^const>\<open>map_of\<close>.
\<close>

datatype 'f json =
    JNull
  | JBool bool
  | JInt int
  | JFloat 'f
  | JStr string
  | JArr "'f json list"
  | JObj "(string \<times> 'f json) list"

text \<open>What \<^verbatim>\<open>round(x, 2)\<close> returns and the record keeps: an int or a float.\<close>

datatype 'f number = PInt int | PFloat 'f

text \<open>The dictionary appended to \<^verbatim>\<open>all_data\<close>.\<close>

record 'f price_record =
  rec_date :: string
  rec_symbol :: string
  rec_price :: "'f number"

text \<open>Sequencing of steps that may raise: the first exception ends the block.\<close>

definition bindE :: "py_error + 'a \<Rightarrow> ('a \<Rightarrow> py_error + 'b) \<Rightarrow> py_error + 'b" where
  "bindE m k = (case m of Inl e \<Rightarrow> Inl e | Inr v \<Rightarrow> k v)"

text \<open>Truth value of a Python object, as \<^verbatim>\<open>if result:\<close> tests it.\<close>

fun truthy :: "'f float_ops \<Rightarrow> 'f json \<Rightarrow> bool" where
  "truthy ops JNull = False"
| "truthy ops (JBool b) = b"
| "truthy ops (JInt n) = (n \<noteq> 0)"
| "truthy ops (JFloat x) = (\<not> float_is_zero ops x)"
| "truthy ops (JStr s) = (s \<noteq> [])"
| "truthy ops (JArr xs) = (xs \<noteq> [])"
| "truthy ops (JObj kvs) = (kvs \<noteq> [])"

text \<open>\<^verbatim>\<open>v.get(key, default)\<close>: only a dictionary has the method.\<close>

fun py_get :: "'f json \<Rightarrow> string \<Rightarrow> 'f json \<Rightarrow> py_error + 'f json" where
  "py_get (JObj kvs) key dflt =
     (case map_of kvs key of Some v \<Rightarrow> Inr v | None \<Rightarrow> Inr dflt)"
| "py_get v key dflt = Inl AttributeError"

text \<open>
  \<^verbatim>\<open>v[0]\<close>: the first element of a list, the first character of a string; an
  empty one raises \<^verbatim>\<open>IndexError\<close>, a dictionary (its keys are strings) raises
  \<^verbatim>\<open>KeyError\<close>, anything else is not subscriptable.
\<close>

fun py_index0 :: "'f json \<Rightarrow> py_error + 'f json" where
  "py_index0 (JArr []) = Inl IndexError"
| "py_index0 (JArr (x # xs)) = Inr x"
| "py_index0 (JStr []) = Inl IndexError"
| "py_index0 (JStr (c # cs)) = Inr (JStr [c])"
| "py_index0 (JObj kvs) = Inl KeyError"
| "py_index0 v = Inl TypeError"

text \<open>
  \<^verbatim>\<open>round(v, 2)\<close>: an int is returned as it is (a bool as the int 0 or 1), a
  float is rounded by the float operation, any other object raises
  \<^verbatim>\<open>TypeError\<close>.
\<close>

fun py_round2 :: "'f float_ops \<Rightarrow> 'f json \<Rightarrow> py_error + 'f number" where
  "py_round2 ops (JInt n) = Inr (PInt n)"
| "py_round2 ops (JBool b) = Inr (PInt (if b then 1 else 0))"
| "py_round2 ops (JFloat x) = Inr (PFloat (round2_float ops x))"
| "py_round2 ops v = Inl TypeError"

text \<open>\<^verbatim>\<open>str(price)\<close>, as the f-string of the CSV row formats it.\<close>

fun str_of_number :: "'f float_ops \<Rightarrow> 'f number \<Rightarrow> string" where
  "str_of_number ops (PInt n) = str_of_int n"
| "str_of_number ops (PFloat x) = str_of_float ops x"

definition egx_symbols :: "string list" where
  "egx_symbols =
     [''EGS01041C010.CA'', ''EGS01071C017.CA'', ''EGS01081C016.CA'',
      ''EGS02021C011.CA'', ''EGS02051C018.CA'', ''EGS02091C014.CA'',
      ''EGS02211C018.CA'', ''EGS02291C010.CA'', ''EGS07061C012.CA'']"

definition chart_url :: "string \<Rightarrow> string" where
  "chart_url symbol =
     ''https://query1.finance.yahoo.com/v8/finance/chart/'' @ symbol @
     ''?interval=1d&range=1d''"

text \<open>
  From the decoded payload to the first close price: \<open>Inr None\<close> when
  \<^verbatim>\<open>result\<close> or \<^verbatim>\<open>close_prices\<close> is falsy, \<open>Inr (Some c)\<close> with
  \<^verbatim>\<open>close_prices[0]\<close> otherwise, and the exception of the first step that raises.
\<close>

definition first_close :: "'f float_ops \<Rightarrow> 'f json \<Rightarrow> py_error + 'f json option" where
  "first_close ops data =
     bindE (py_get data ''chart'' (JObj [])) (\<lambda>chart.
     bindE (py_get chart ''result'' (JArr [])) (\<lambda>result.
     if truthy ops result then
       bindE (py_index0 result) (\<lambda>result0.
       bindE (py_get result0 ''indicators'' (JObj [])) (\<lambda>indicators.
       bindE (py_get indicators ''quote'' (JArr [JObj []])) (\<lambda>quotes.
       bindE (py_index0 quotes) (\<lambda>quote.
       bindE (py_get quote ''close'' (JArr [])) (\<lambda>close_prices.
       if truthy ops close_prices then
         bindE (py_index0 close_prices) (\<lambda>close0. Inr (Some close0))
       else Inr None)))))
     else Inr None))"

text \<open>
  The body of the \<^verbatim>\<open>try\<close> for one symbol. \<open>fetch\<close> stands for the request,
  \<^verbatim>\<open>response.read().decode()\<close> and \<^verbatim>\<open>json.loads\<close>: for a URL it gives the
  decoded payload or the exception raised on the way. The result is the record to
  append, \<open>Inr None\<close> when the body ends without appending, or the exception.
\<close>

definition try_symbol ::
  "'f float_ops \<Rightarrow> (string \<Rightarrow> py_error + 'f json) \<Rightarrow> string \<Rightarrow> string
     \<Rightarrow> py_error + 'f price_record option" where
  "try_symbol ops fetch execution_date symbol =
     bindE (fetch (chart_url symbol)) (\<lambda>data.
     bindE (first_close ops data) (\<lambda>found.
     case found of
       None \<Rightarrow> Inr None
     | Some JNull \<Rightarrow> Inr None
     | Some close0 \<Rightarrow>
         bindE (py_round2 ops close0) (\<lambda>price.
         Inr (Some \<lparr>rec_date = execution_date,
                     rec_symbol = py_replace ''.CA'' [] symbol,
                     rec_price = price\<rparr>))))"

text \<open>
  The loop \<^verbatim>\<open>for symbol in egx_symbols\<close>: \<^verbatim>\<open>except Exception\<close> catches
  whatever the body raises, and the loop goes on with the next symbol.
\<close>

fun extract_loop ::
  "'f float_ops \<Rightarrow> (string \<Rightarrow> py_error + 'f json) \<Rightarrow> string \<Rightarrow> string list
     \<Rightarrow> 'f price_record list \<Rightarrow> 'f price_record list" where
  "extract_loop ops fetch execution_date [] all_data = all_data"
| "extract_loop ops fetch execution_date (symbol # symbols) all_data =
     (case try_symbol ops fetch execution_date symbol of
        Inr (Some r) \<Rightarrow> extract_loop ops fetch execution_date symbols (all_data @ [r])
      | Inr None \<Rightarrow> extract_loop ops fetch execution_date symbols all_data
      | Inl e \<Rightarrow> extract_loop ops fetch execution_date symbols all_data)"

text \<open>One row of the raw artifact:
  \<^verbatim>\<open>f"{row['date']},{row['symbol']},{row['price']}\n"\<close>.\<close>

definition csv_line :: "'f float_ops \<Rightarrow> 'f price_record \<Rightarrow> string" where
  "csv_line ops r =
     rec_date r @ '','' @ rec_symbol r @ '','' @ str_of_number ops (rec_price r) @
     ''\<newline>''"

definition csv_path_of :: "string \<Rightarrow> string" where
  "csv_path_of execution_date = ''/tmp/egx30_'' @ execution_date @ ''.csv''"

definition csv_text :: "'f float_ops \<Rightarrow> 'f price_record list \<Rightarrow> string" where
  "csv_text ops all_data =
     ''date,stock_symbol,price\<newline>'' @ concat (map (csv_line ops) all_data)"

text \<open>
  The stage: the loop, the \<^verbatim>\<open>ValueError\<close> on an empty \<^verbatim>\<open>all_data\<close>, then the
  raw artifact is written and its path returned.
\<close>

definition extract_stock_data ::
  "'f float_ops \<Rightarrow> (string \<Rightarrow> py_error + 'f json) \<Rightarrow> files \<Rightarrow> string
     \<Rightarrow> py_error + (files \<times> string)" where
  "extract_stock_data ops fetch fs execution_date =
     (let all_data = extract_loop ops fetch execution_date egx_symbols [] in
      if all_data = [] then Inl (ValueError ''No data extracted'')
      else
        (let csv_path = csv_path_of execution_date
         in Inr (fs(csv_path \<mapsto> csv_text ops all_data), csv_path)))"

section \<open>Properties named by the specification\<close>

text \<open>
  A malformed row, in the words of the specification: the line does not split into
  exactly three comma-separated fields, or its price field does not parse as a
  number.
\<close>

definition malformed :: "'f float_ops \<Rightarrow> string \<Rightarrow> bool" where
  "malformed ops line =
     (let parts = py_split (py_strip line)
      in length parts \<noteq> 3 \<or> float_of_str ops (parts ! 2) = None)"

text \<open>
  Deduplication, in the words of the specification: the first occurrence of a
  symbol in file order is retained and any later row for the same symbol is
  discarded.
\<close>

fun first_seen :: "'f row list \<Rightarrow> 'f row list" where
  "first_seen [] = []"
| "first_seen (r # rs) = r # first_seen (filter (\<lambda>x. row_symbol x \<noteq> row_symbol r) rs)"

text \<open>The record a symbol contributes to \<^verbatim>\<open>all_data\<close>, if any.\<close>

definition yielded ::
  "'f float_ops \<Rightarrow> (string \<Rightarrow> py_error + 'f json) \<Rightarrow> string \<Rightarrow> string
     \<Rightarrow> 'f price_record option" where
  "yielded ops fetch execution_date symbol =
     (case try_symbol ops fetch execution_date symbol of
        Inr (Some r) \<Rightarrow> Some r
      | Inr None \<Rightarrow> None
      | Inl e \<Rightarrow> None)"

text \<open>A text without comma and without whitespace, as a field of a CSV row.\<close>

definition plain_text :: "string \<Rightarrow> bool" where
  "plain_text s = list_all (\<lambda>c. c \<noteq> CHR '','' \<and> \<not> is_space c) s"


text \<open>The seven statements of the load script, as the template spells them.\<close>

definition stmt_create_staging :: string where
  "stmt_create_staging =
     ''CREATE TABLE IF NOT EXISTS egx30_staging (\<newline>'' @
     ''    stock_symbol STRING,\<newline>'' @
     ''    price DECIMAL(10,2)\<newline>'' @
     '')\<newline>'' @
     ''ROW FORMAT DELIMITED\<newline>'' @
     ''FIELDS TERMINATED BY ','\<newline>'' @
     ''STORED AS TEXTFILE;''"

definition stmt_create_target :: string where
  "stmt_create_target =
     ''CREATE TABLE IF NOT EXISTS egx30_stocks (\<newline>'' @
     ''    stock_symbol STRING,\<newline>'' @
     ''    price DECIMAL(10,2)\<newline>'' @
     '')\<newline>'' @
     ''PARTITIONED BY (trade_date STRING)\<newline>'' @
     ''STORED AS ORC\<newline>'' @
     ''TBLPROPERTIES ('orc.compress'='SNAPPY');''"

definition stmt_truncate :: string where
  "stmt_truncate = ''TRUNCATE TABLE egx30_staging;''"

definition stmt_load :: "string \<Rightarrow> string" where
  "stmt_load hive_data =
     ''LOAD DATA LOCAL INPATH '' @ [CHR 0x27] @ hive_data @ [CHR 0x27] @
     '' INTO TABLE egx30_staging;''"

definition stmt_drop_partition :: "string \<Rightarrow> string" where
  "stmt_drop_partition execution_date =
     ''ALTER TABLE egx30_stocks DROP IF EXISTS PARTITION (trade_date='' @
     [CHR 0x27] @ execution_date @ [CHR 0x27] @ '');''"

definition stmt_insert :: "string \<Rightarrow> string" where
  "stmt_insert execution_date =
     ''INSERT INTO TABLE egx30_stocks PARTITION (trade_date='' @
     [CHR 0x27] @ execution_date @ [CHR 0x27] @ '')\<newline>'' @
     ''SELECT stock_symbol, price FROM egx30_staging;''"

definition stmt_verify :: "string \<Rightarrow> string" where
  "stmt_verify execution_date =
     ''SELECT trade_date, COUNT(*) as record_count \<newline>'' @
     ''FROM egx30_stocks \<newline>'' @
     ''WHERE trade_date='' @ [CHR 0x27] @ execution_date @ [CHR 0x27] @ ''\<newline>'' @
     ''GROUP BY trade_date;''"

section \<open>Concrete inputs\<close>

text \<open>
  An instance of the float operations on which the definitions compute: a float
  is the decimal text it was read from, \<^verbatim>\<open>digits\<close> or \<^verbatim>\<open>digits.digits\<close>. It
  prints as Python does on the prices used below (\<^verbatim>\<open>10.5\<close>, \<^verbatim>\<open>20.25\<close>,
  \<^verbatim>\<open>7.5\<close>, \<^verbatim>\<open>123.46\<close>).
\<close>

definition is_digit :: "char \<Rightarrow> bool" where
  "is_digit c = (c \<in> set ''0123456789'')"

definition decimal_text :: "string \<Rightarrow> bool" where
  "decimal_text s =
     (let a = takeWhile is_digit s
      in a \<noteq> [] \<and>
         (case drop (length a) s of
            [] \<Rightarrow> True
          | c # ds \<Rightarrow> c = CHR ''.'' \<and> ds \<noteq> [] \<and> list_all is_digit ds))"

definition text_ops :: "string float_ops" where
  "text_ops =
     \<lparr>float_of_str = (\<lambda>s. if decimal_text (py_strip s) then Some (py_strip s) else None),
      str_of_float = (\<lambda>x. x),
      round2_float = (\<lambda>x. x),
      float_is_zero = list_all (\<lambda>c. c \<in> set ''0.'')\<rparr>"

text \<open>A raw artifact with a duplicate symbol and two malformed rows.\<close>

definition raw_example :: string where
  "raw_example =
     ''date,stock_symbol,price\<newline>'' @
     ''2024-01-01,X,10.5\<newline>'' @
     ''2024-01-01,X\<newline>'' @
     ''2024-01-01,X,20.25\<newline>'' @
     ''2024-01-01,Y,abc\<newline>'' @
     ''2024-01-01,Y,7.5\<newline>''"

text \<open>A raw artifact in which a symbol comes back after another one.\<close>

definition raw_interleaved :: string where
  "raw_interleaved =
     ''date,stock_symbol,price\<newline>'' @
     ''2024-01-01,X,1.5\<newline>'' @
     ''2024-01-01,Y,2.5\<newline>'' @
     ''2024-01-01,X,1.5\<newline>''"

text \<open>A raw artifact whose data rows are all malformed.\<close>

definition raw_all_malformed :: string where
  "raw_all_malformed =
     ''date,stock_symbol,price\<newline>'' @
     ''2024-01-01,X\<newline>'' @
     ''2024-01-01,Y,abc\<newline>''"

text \<open>The payload of the chart endpoint around one close price.\<close>

definition chart_payload :: "'f json \<Rightarrow> 'f json" where
  "chart_payload c =
     JObj [(''chart'',
       JObj [(''result'',
         JArr [JObj [(''indicators'',
           JObj [(''quote'', JArr [JObj [(''close'', JArr [c])]])])]])])]"

text \<open>Every request fails.\<close>

definition fetch_unreachable :: "string \<Rightarrow> py_error + string json" where
  "fetch_unreachable url = Inl URLError"

text \<open>The first symbol answers with the integer close 5, the others time out.\<close>

definition fetch_close_5 :: "string \<Rightarrow> py_error + string json" where
  "fetch_close_5 url =
     (if url = chart_url ''EGS01041C010.CA'' then Inr (chart_payload (JInt 5))
      else Inl TimeoutError)"

text \<open>The first symbol answers with the float close 123.46, the second with a
  null close, the others are unreachable.\<close>

definition fetch_mixed :: "string \<Rightarrow> py_error + string json" where
  "fetch_mixed url =
     (if url = chart_url ''EGS01041C010.CA'' then Inr (chart_payload (JFloat ''123.46''))
      else if url = chart_url ''EGS01071C017.CA'' then Inr (chart_payload JNull)
      else Inl URLError)"

section \<open>Reading the rows\<close>

lemma read_rows_acc:
  "read_rows ops lines acc = acc @ read_rows ops lines []"
proof (induction lines arbitrary: acc)
  case Nil
  show ?case by simp
next
  case (Cons l lines)
  define parts where "parts = py_split (py_strip l)"
  show ?case
  proof (cases "length parts = 3")
    case False
    then show ?thesis using Cons.IH [of acc] by (simp add: parts_def)
  next
    case True
    show ?thesis
    proof (cases "float_of_str ops (parts ! 2)")
      case None
      then show ?thesis using True Cons.IH [of acc] by (simp add: parts_def)
    next
      case (Some x)
      let ?r = "\<lparr>row_symbol = parts ! 1, row_price = x\<rparr>"
      have "read_rows ops (l # lines) acc = read_rows ops lines (acc @ [?r])"
        using True Some by (simp add: parts_def)
      also have "\<dots> = (acc @ [?r]) @ read_rows ops lines []"
        by (rule Cons.IH)
      also have "\<dots> = acc @ read_rows ops lines [?r]"
        using Cons.IH [of "[?r]"] by simp
      also have "read_rows ops lines [?r] = read_rows ops (l # lines) []"
        using True Some by (simp add: parts_def)
      finally show ?thesis .
    qed
  qed
qed

lemma read_rows_one_malformed:
  "malformed ops l \<Longrightarrow> read_rows ops [l] [] = []"
  by (auto simp: malformed_def Let_def)

lemma read_rows_one_wellformed:
  assumes "\<not> malformed ops l"
  shows "\<exists>x. float_of_str ops (py_split (py_strip l) ! 2) = Some x \<and>
             read_rows ops [l] [] =
               [\<lparr>row_symbol = py_split (py_strip l) ! 1, row_price = x\<rparr>]"
  using assms by (auto simp: malformed_def Let_def)

lemma read_rows_Cons:
  "read_rows ops (l # lines) [] = read_rows ops [l] [] @ read_rows ops lines []"
proof (cases "malformed ops l")
  case True
  then show ?thesis by (auto simp: malformed_def Let_def)
next
  case False
  then obtain x where x: "float_of_str ops (py_split (py_strip l) ! 2) = Some x"
    and len: "length (py_split (py_strip l)) = 3"
    by (auto simp: malformed_def Let_def)
  show ?thesis
    using x len
      read_rows_acc [of ops lines "[\<lparr>row_symbol = py_split (py_strip l) ! 1, row_price = x\<rparr>]"]
    by simp
qed

lemma read_rows_append:
  "read_rows ops (xs @ ys) [] = read_rows ops xs [] @ read_rows ops ys []"
proof (induction xs)
  case Nil
  show ?case by simp
next
  case (Cons l xs)
  have "read_rows ops ((l # xs) @ ys) [] = read_rows ops [l] [] @ read_rows ops (xs @ ys) []"
    using read_rows_Cons [of ops l "xs @ ys"] by simp
  also have "\<dots> = read_rows ops [l] [] @ read_rows ops xs [] @ read_rows ops ys []"
    by (simp only: Cons.IH)
  also have "\<dots> = read_rows ops (l # xs) [] @ read_rows ops ys []"
    using read_rows_Cons [of ops l xs] by simp
  finally show ?case .
qed

lemma read_rows_all_malformed:
  "\<forall>l \<in> set lines. malformed ops l \<Longrightarrow> read_rows ops lines [] = []"
proof (induction lines)
  case Nil
  show ?case by simp
next
  case (Cons l lines)
  then show ?case
    using read_rows_Cons [of ops l lines] read_rows_one_malformed [of ops l] by simp
qed

lemma output_paths_differ: "hive_data_path d \<noteq> hql_script_path d"
  by (simp add: hive_data_path_def hql_script_path_def)

lemma validate_and_prepare_files:
  assumes "fs csv_path = Some content"
  shows "validate_and_prepare ops fs csv_path d =
           Inr (fs(hive_data_path d \<mapsto> concat (map (hive_line ops) (clean_rows ops content)),
                   hql_script_path d \<mapsto> hql_text (hive_data_path d) d),
                hql_script_path d)"
  using assms by (simp add: validate_and_prepare_def Let_def)

lemma raw_example_lines:
  "data_lines raw_example =
     [''2024-01-01,X,10.5\<newline>'', ''2024-01-01,X\<newline>'', ''2024-01-01,X,20.25\<newline>'',
      ''2024-01-01,Y,abc\<newline>'', ''2024-01-01,Y,7.5\<newline>'']"
  by (simp add: data_lines_def raw_example_def)

section \<open>Removing duplicates\<close>

lemma remove_duplicates_acc:
  "remove_duplicates rows seen acc = acc @ remove_duplicates rows seen []"
proof (induction rows arbitrary: seen acc)
  case Nil
  show ?case by simp
next
  case (Cons r rows)
  show ?case
    using Cons.IH [of "insert (row_symbol r) seen" "acc @ [r]"]
          Cons.IH [of "insert (row_symbol r) seen" "[r]"]
          Cons.IH [of seen acc]
    by simp
qed

lemma remove_duplicates_Cons:
  "remove_duplicates (r # rows) seen [] =
     (if row_symbol r \<notin> seen then r # remove_duplicates rows (insert (row_symbol r) seen) []
      else remove_duplicates rows seen [])"
  using remove_duplicates_acc [of rows "insert (row_symbol r) seen" "[r]"] by simp

lemma remove_duplicates_symbols:
  "set (map row_symbol (remove_duplicates rows seen [])) = set (map row_symbol rows) - seen"
proof (induction rows arbitrary: seen)
  case Nil
  show ?case by simp
next
  case (Cons r rows)
  show ?case
    unfolding remove_duplicates_Cons using Cons.IH by auto
qed

lemma remove_duplicates_distinct:
  "distinct (map row_symbol (remove_duplicates rows seen []))"
proof (induction rows arbitrary: seen)
  case Nil
  show ?case by simp
next
  case (Cons r rows)
  show ?case
    unfolding remove_duplicates_Cons
    using Cons.IH remove_duplicates_symbols [of rows "insert (row_symbol r) seen"] by auto
qed

lemma remove_duplicates_subseq:
  "subseq (remove_duplicates rows seen []) rows"
proof (induction rows arbitrary: seen)
  case Nil
  show ?case by simp
next
  case (Cons r rows)
  show ?case
    unfolding remove_duplicates_Cons using Cons.IH by auto
qed

lemma remove_duplicates_first:
  "r \<in> set (remove_duplicates rows seen []) \<Longrightarrow>
     find (\<lambda>x. row_symbol x = row_symbol r) rows = Some r"
proof (induction rows arbitrary: seen)
  case Nil
  then show ?case by simp
next
  case (Cons a rows)
  show ?case
  proof (cases "r = a \<and> row_symbol a \<notin> seen")
    case True
    then show ?thesis by simp
  next
    case False
    let ?seen' = "if row_symbol a \<notin> seen then insert (row_symbol a) seen else seen"
    have mem: "r \<in> set (remove_duplicates rows ?seen' [])"
      using Cons.prems False unfolding remove_duplicates_Cons by (auto split: if_splits)
    then have "row_symbol r \<in> set (map row_symbol (remove_duplicates rows ?seen' []))"
      by (metis image_eqI set_map)
    then have "row_symbol r \<noteq> row_symbol a \<or> row_symbol a \<in> seen \<and> row_symbol r \<notin> seen"
      unfolding remove_duplicates_symbols by (auto split: if_splits)
    then have ne: "row_symbol a \<noteq> row_symbol r" by auto
    show ?thesis using Cons.IH [OF mem] ne by simp
  qed
qed

lemma remove_duplicates_first_seen:
  "remove_duplicates rows seen [] = first_seen (filter (\<lambda>r. row_symbol r \<notin> seen) rows)"
proof (induction rows arbitrary: seen)
  case Nil
  show ?case by simp
next
  case (Cons r rows)
  have comp: "filter (\<lambda>x. row_symbol x \<noteq> row_symbol r) (filter (\<lambda>x. row_symbol x \<notin> seen) rows) =
      filter (\<lambda>x. row_symbol x \<notin> insert (row_symbol r) seen) rows"
    by (induction rows) auto
  show ?case
    unfolding remove_duplicates_Cons
    using Cons.IH [of seen] Cons.IH [of "insert (row_symbol r) seen"] comp by simp
qed

lemma remdups_snoc:
  "remdups (xs @ [a]) = filter (\<lambda>x. x \<noteq> a) (remdups xs) @ [a]"
  by (induction xs) auto

lemma first_seen_symbols:
  "map row_symbol (first_seen rs) = rev (remdups (rev (map row_symbol rs)))"
proof (induction rs rule: first_seen.induct)
  case 1
  show ?case by simp
next
  case (2 r rs)
  have flt: "filter (\<lambda>a. a \<noteq> row_symbol r) (rev (map row_symbol rs)) =
      rev (map row_symbol (filter (\<lambda>x. row_symbol x \<noteq> row_symbol r) rs))"
    by (induction rs) auto
  have "rev (remdups (rev (map row_symbol (r # rs)))) =
      rev (remdups (rev (map row_symbol rs) @ [row_symbol r]))"
    by simp
  also have "\<dots> = row_symbol r #
      rev (remdups (filter (\<lambda>a. a \<noteq> row_symbol r) (rev (map row_symbol rs))))"
    by (simp add: remdups_snoc remdups_filter)
  also have "\<dots> = row_symbol r #
      rev (remdups (rev (map row_symbol (filter (\<lambda>x. row_symbol x \<noteq> row_symbol r) rs))))"
    by (simp only: flt)
  also have "\<dots> = map row_symbol (first_seen (r # rs))"
    using "2.IH" by simp
  finally show ?case by simp
qed

text \<open>
  Claim C3. For every raw artifact, the clean dataset has one entry per distinct
  symbol of the well-formed rows: its symbols are pairwise distinct, they are
  exactly the symbols of the well-formed rows, every entry is the first well-formed
  row of the file with its symbol, and the entries stand in first-seen order: the
  clean dataset is the list that keeps each first occurrence and discards the later
  rows of its symbol, and its symbols are those of the well-formed rows with every
  repetition removed. The stage writes these rows, one line
  \<^verbatim>\<open>symbol,price\<close> each, as the clean dataset.
\<close>

theorem clean_rows_first_occurrence:
  "distinct (map row_symbol (clean_rows ops content)) \<and>
   set (map row_symbol (clean_rows ops content)) =
     set (map row_symbol (raw_rows ops content)) \<and>
   subseq (clean_rows ops content) (raw_rows ops content) \<and>
   (\<forall>r \<in> set (clean_rows ops content).
      find (\<lambda>x. row_symbol x = row_symbol r) (raw_rows ops content) = Some r) \<and>
   clean_rows ops content = first_seen (raw_rows ops content) \<and>
   map row_symbol (clean_rows ops content) =
     rev (remdups (rev (map row_symbol (raw_rows ops content)))) \<and>
   (fs csv_path = Some content \<longrightarrow>
      (\<exists>fs'. validate_and_prepare ops fs csv_path d = Inr (fs', hql_script_path d) \<and>
             fs' (hive_data_path d) =
               Some (concat (map (\<lambda>r. row_symbol r @ '','' @ str_of_float ops (row_price r) @
                                        ''\<newline>'')
                              (clean_rows ops content)))))"
proof -
  have eq: "clean_rows ops content = first_seen (raw_rows ops content)"
    unfolding clean_rows_def
    using remove_duplicates_first_seen [of "raw_rows ops content" "{}"] by simp
  have syms: "map row_symbol (clean_rows ops content) =
     rev (remdups (rev (map row_symbol (raw_rows ops content))))"
    unfolding eq by (rule first_seen_symbols)
  have lines: "hive_line ops = (\<lambda>r. row_symbol r @ '','' @ str_of_float ops (row_price r) @
      ''\<newline>'')"
    by (rule ext) (simp add: hive_line_def)
  have written: "fs csv_path = Some content \<longrightarrow>
      (\<exists>fs'. validate_and_prepare ops fs csv_path d = Inr (fs', hql_script_path d) \<and>
             fs' (hive_data_path d) =
               Some (concat (map (\<lambda>r. row_symbol r @ '','' @ str_of_float ops (row_price r) @
                                        ''\<newline>'')
                              (clean_rows ops content))))"
    using validate_and_prepare_files [of fs csv_path content ops d] output_paths_differ [of d]
    unfolding lines by simp
  have old: "distinct (map row_symbol (clean_rows ops content)) \<and>
   set (map row_symbol (clean_rows ops content)) =
     set (map row_symbol (raw_rows ops content)) \<and>
   subseq (clean_rows ops content) (raw_rows ops content) \<and>
   (\<forall>r \<in> set (clean_rows ops content).
      find (\<lambda>x. row_symbol x = row_symbol r) (raw_rows ops content) = Some r)"
    unfolding clean_rows_def
    using remove_duplicates_distinct [of "raw_rows ops content" "{}"]
        remove_duplicates_symbols [of "raw_rows ops content" "{}"]
        remove_duplicates_subseq [of "raw_rows ops content" "{}"]
        remove_duplicates_first [of _ "raw_rows ops content" "{}"]
    by simp
  from old eq syms written show ?thesis by blast
qed

lemma raw_interleaved_rows:
  "raw_rows text_ops raw_interleaved =
     [\<lparr>row_symbol = ''X'', row_price = ''1.5''\<rparr>, \<lparr>row_symbol = ''Y'', row_price = ''2.5''\<rparr>,
      \<lparr>row_symbol = ''X'', row_price = ''1.5''\<rparr>]"
  by (simp add: raw_rows_def data_lines_def raw_interleaved_def py_strip_def is_space_def
      text_ops_def decimal_text_def is_digit_def)

theorem clean_rows_first_occurrence_witness:
  "[''/tmp/egx30_2024-01-01.csv'' \<mapsto> raw_interleaved] ''/tmp/egx30_2024-01-01.csv'' =
     Some raw_interleaved \<and>
   raw_rows text_ops raw_interleaved =
     [\<lparr>row_symbol = ''X'', row_price = ''1.5''\<rparr>, \<lparr>row_symbol = ''Y'', row_price = ''2.5''\<rparr>,
      \<lparr>row_symbol = ''X'', row_price = ''1.5''\<rparr>] \<and>
   clean_rows text_ops raw_interleaved =
     [\<lparr>row_symbol = ''X'', row_price = ''1.5''\<rparr>, \<lparr>row_symbol = ''Y'', row_price = ''2.5''\<rparr>] \<and>
   \<lparr>row_symbol = ''Y'', row_price = ''2.5''\<rparr> \<in> set (clean_rows text_ops raw_interleaved) \<and>
   find (\<lambda>x. row_symbol x = ''Y'') (raw_rows text_ops raw_interleaved) =
     Some \<lparr>row_symbol = ''Y'', row_price = ''2.5''\<rparr> \<and>
   (\<exists>fs'. validate_and_prepare text_ops [''/tmp/egx30_2024-01-01.csv'' \<mapsto> raw_interleaved]
            ''/tmp/egx30_2024-01-01.csv'' ''2024-01-01'' =
          Inr (fs', hql_script_path ''2024-01-01'') \<and>
        fs' (hive_data_path ''2024-01-01'') = Some ''X,1.5\<newline>Y,2.5\<newline>'')"
proof -
  let ?fs = "[''/tmp/egx30_2024-01-01.csv'' \<mapsto> raw_interleaved]"
  note inst = clean_rows_first_occurrence
      [of text_ops raw_interleaved ?fs "''/tmp/egx30_2024-01-01.csv''" "''2024-01-01''"]
  have stored: "?fs ''/tmp/egx30_2024-01-01.csv'' = Some raw_interleaved"
    by simp
  have clean: "clean_rows text_ops raw_interleaved =
     [\<lparr>row_symbol = ''X'', row_price = ''1.5''\<rparr>, \<lparr>row_symbol = ''Y'', row_price = ''2.5''\<rparr>]"
    using inst unfolding raw_interleaved_rows by simp
  have mem: "\<lparr>row_symbol = ''Y'', row_price = ''2.5''\<rparr> \<in> set (clean_rows text_ops raw_interleaved)"
    unfolding clean by simp
  have "\<forall>r \<in> set (clean_rows text_ops raw_interleaved).
      find (\<lambda>x. row_symbol x = row_symbol r) (raw_rows text_ops raw_interleaved) = Some r"
    using inst by blast
  from this mem
  have "find (\<lambda>x. row_symbol x = row_symbol \<lparr>row_symbol = ''Y'', row_price = ''2.5''\<rparr>)
          (raw_rows text_ops raw_interleaved) = Some \<lparr>row_symbol = ''Y'', row_price = ''2.5''\<rparr>"
    by (rule bspec)
  then have first: "find (\<lambda>x. row_symbol x = ''Y'') (raw_rows text_ops raw_interleaved) =
     Some \<lparr>row_symbol = ''Y'', row_price = ''2.5''\<rparr>"
    by simp
  have "\<exists>fs'. validate_and_prepare text_ops ?fs ''/tmp/egx30_2024-01-01.csv'' ''2024-01-01'' =
          Inr (fs', hql_script_path ''2024-01-01'') \<and>
        fs' (hive_data_path ''2024-01-01'') =
          Some (concat (map (\<lambda>r. row_symbol r @ '','' @ str_of_float text_ops (row_price r) @
                                   ''\<newline>'')
                         (clean_rows text_ops raw_interleaved)))"
    using inst stored by blast
  then have written: "\<exists>fs'. validate_and_prepare text_ops ?fs ''/tmp/egx30_2024-01-01.csv''
          ''2024-01-01'' = Inr (fs', hql_script_path ''2024-01-01'') \<and>
        fs' (hive_data_path ''2024-01-01'') = Some ''X,1.5\<newline>Y,2.5\<newline>''"
    unfolding clean by (simp add: text_ops_def)
  from stored raw_interleaved_rows clean mem first written show ?thesis by blast
qed

section \<open>Malformed rows and the empty dataset\<close>

text \<open>
  Claim C4. A line after the header is skipped exactly when it is malformed: a
  malformed line leaves \<^verbatim>\<open>data\<close> and the clean dataset as they are without it,
  a well-formed line contributes its row at its place, and the stage returns
  without raising whatever the lines are.
\<close>

theorem malformed_rows_are_skipped:
  assumes "data_lines content = xs @ l # ys"
  shows "(malformed ops l \<longrightarrow>
            raw_rows ops content = read_rows ops (xs @ ys) [] \<and>
            clean_rows ops content = remove_duplicates (read_rows ops (xs @ ys) []) {} []) \<and>
         (\<not> malformed ops l \<longrightarrow>
            (\<exists>x. float_of_str ops (py_split (py_strip l) ! 2) = Some x \<and>
                 raw_rows ops content =
                   read_rows ops xs [] @
                   \<lparr>row_symbol = py_split (py_strip l) ! 1, row_price = x\<rparr> #
                   read_rows ops ys [])) \<and>
         (fs csv_path = Some content \<longrightarrow>
            (\<exists>fs'. validate_and_prepare ops fs csv_path d = Inr (fs', hql_script_path d)))"
proof -
  have split: "raw_rows ops content =
      read_rows ops xs [] @ read_rows ops [l] [] @ read_rows ops ys []"
    unfolding raw_rows_def assms
    using read_rows_append [of ops xs "l # ys"] read_rows_Cons [of ops l ys] by simp
  have bad: "malformed ops l \<longrightarrow> raw_rows ops content = read_rows ops (xs @ ys) []"
    using split read_rows_one_malformed [of ops l] read_rows_append [of ops xs ys] by simp
  have good: "\<not> malformed ops l \<longrightarrow>
            (\<exists>x. float_of_str ops (py_split (py_strip l) ! 2) = Some x \<and>
                 raw_rows ops content =
                   read_rows ops xs [] @
                   \<lparr>row_symbol = py_split (py_strip l) ! 1, row_price = x\<rparr> #
                   read_rows ops ys [])"
    using split read_rows_one_wellformed [of ops l] by auto
  have total: "fs csv_path = Some content \<longrightarrow>
            (\<exists>fs'. validate_and_prepare ops fs csv_path d = Inr (fs', hql_script_path d))"
    using validate_and_prepare_files [of fs csv_path content ops d] by blast
  show ?thesis using bad good total by (simp add: clean_rows_def)
qed

theorem malformed_rows_are_skipped_witness:
  "data_lines raw_example =
     [''2024-01-01,X,10.5\<newline>''] @ ''2024-01-01,X\<newline>'' #
     [''2024-01-01,X,20.25\<newline>'', ''2024-01-01,Y,abc\<newline>'', ''2024-01-01,Y,7.5\<newline>''] \<and>
   malformed text_ops ''2024-01-01,X\<newline>'' \<and>
   raw_rows text_ops raw_example =
     read_rows text_ops
       ([''2024-01-01,X,10.5\<newline>''] @
        [''2024-01-01,X,20.25\<newline>'', ''2024-01-01,Y,abc\<newline>'', ''2024-01-01,Y,7.5\<newline>'']) [] \<and>
   \<not> malformed text_ops ''2024-01-01,X,10.5\<newline>'' \<and>
   (\<exists>x. raw_rows text_ops raw_example =
          read_rows text_ops [] [] @ \<lparr>row_symbol = ''X'', row_price = x\<rparr> #
          read_rows text_ops
            [''2024-01-01,X\<newline>'', ''2024-01-01,X,20.25\<newline>'', ''2024-01-01,Y,abc\<newline>'',
             ''2024-01-01,Y,7.5\<newline>''] []) \<and>
   (\<exists>fs'. validate_and_prepare text_ops [''/tmp/egx30_2024-01-01.csv'' \<mapsto> raw_example]
            ''/tmp/egx30_2024-01-01.csv'' ''2024-01-01'' =
          Inr (fs', hql_script_path ''2024-01-01''))"
proof -
  have l1: "data_lines raw_example =
     [''2024-01-01,X,10.5\<newline>''] @ ''2024-01-01,X\<newline>'' #
     [''2024-01-01,X,20.25\<newline>'', ''2024-01-01,Y,abc\<newline>'', ''2024-01-01,Y,7.5\<newline>'']"
    by (simp add: raw_example_lines)
  have l2: "data_lines raw_example =
     [] @ ''2024-01-01,X,10.5\<newline>'' #
     [''2024-01-01,X\<newline>'', ''2024-01-01,X,20.25\<newline>'', ''2024-01-01,Y,abc\<newline>'',
      ''2024-01-01,Y,7.5\<newline>'']"
    by (simp add: raw_example_lines)
  have bad: "malformed text_ops ''2024-01-01,X\<newline>''"
    by (simp add: malformed_def py_strip_def is_space_def)
  have good: "\<not> malformed text_ops ''2024-01-01,X,10.5\<newline>''"
    by (simp add: malformed_def py_strip_def is_space_def text_ops_def decimal_text_def
        is_digit_def)
  have parts: "py_split (py_strip ''2024-01-01,X,10.5\<newline>'') ! 1 = ''X''"
    by (simp add: py_strip_def is_space_def)
  have stored:
    "[''/tmp/egx30_2024-01-01.csv'' \<mapsto> raw_example] ''/tmp/egx30_2024-01-01.csv'' =
       Some raw_example"
    by simp
  note at_bad = malformed_rows_are_skipped [of raw_example
      "[''2024-01-01,X,10.5\<newline>'']" "''2024-01-01,X\<newline>''"
      "[''2024-01-01,X,20.25\<newline>'', ''2024-01-01,Y,abc\<newline>'', ''2024-01-01,Y,7.5\<newline>'']"
      text_ops "[''/tmp/egx30_2024-01-01.csv'' \<mapsto> raw_example]"
      "''/tmp/egx30_2024-01-01.csv''" "''2024-01-01''", OF l1]
  note at_good = malformed_rows_are_skipped [of raw_example
      "[]" "''2024-01-01,X,10.5\<newline>''"
      "[''2024-01-01,X\<newline>'', ''2024-01-01,X,20.25\<newline>'', ''2024-01-01,Y,abc\<newline>'',
        ''2024-01-01,Y,7.5\<newline>'']"
      text_ops "[''/tmp/egx30_2024-01-01.csv'' \<mapsto> raw_example]"
      "''/tmp/egx30_2024-01-01.csv''" "''2024-01-01''", OF l2]
  have skipped: "raw_rows text_ops raw_example =
     read_rows text_ops
       ([''2024-01-01,X,10.5\<newline>''] @
        [''2024-01-01,X,20.25\<newline>'', ''2024-01-01,Y,abc\<newline>'', ''2024-01-01,Y,7.5\<newline>'']) []"
    using at_bad bad by blast
  have kept: "\<exists>x. raw_rows text_ops raw_example =
          read_rows text_ops [] [] @ \<lparr>row_symbol = ''X'', row_price = x\<rparr> #
          read_rows text_ops
            [''2024-01-01,X\<newline>'', ''2024-01-01,X,20.25\<newline>'', ''2024-01-01,Y,abc\<newline>'',
             ''2024-01-01,Y,7.5\<newline>''] []"
    using at_good good unfolding parts by blast
  have returned: "\<exists>fs'. validate_and_prepare text_ops [''/tmp/egx30_2024-01-01.csv'' \<mapsto> raw_example]
            ''/tmp/egx30_2024-01-01.csv'' ''2024-01-01'' =
          Inr (fs', hql_script_path ''2024-01-01'')"
    using at_bad stored by blast
  from l1 bad skipped good kept returned show ?thesis by blast
qed

text \<open>
  Claim C8. When every data row of the raw artifact is malformed, the stage still
  returns the path of the load script: the clean dataset it has written is empty
  and the load script is written as for any other input.
\<close>

theorem empty_clean_dataset_is_accepted:
  assumes "fs csv_path = Some content"
    and "\<forall>l \<in> set (data_lines content). malformed ops l"
  shows "\<exists>fs'. validate_and_prepare ops fs csv_path d = Inr (fs', hql_script_path d) \<and>
               clean_rows ops content = [] \<and>
               fs' (hive_data_path d) = Some [] \<and>
               fs' (hql_script_path d) = Some (hql_text (hive_data_path d) d)"
proof -
  have "raw_rows ops content = []"
    unfolding raw_rows_def using assms(2) by (rule read_rows_all_malformed)
  then have empty: "clean_rows ops content = []"
    by (simp add: clean_rows_def)
  show ?thesis
    using validate_and_prepare_files [of fs csv_path content ops d] assms(1) empty
      output_paths_differ [of d]
    by simp
qed

theorem empty_clean_dataset_is_accepted_witness:
  "[''/tmp/egx30_2024-01-01.csv'' \<mapsto> raw_all_malformed] ''/tmp/egx30_2024-01-01.csv'' =
     Some raw_all_malformed \<and>
   data_lines raw_all_malformed = [''2024-01-01,X\<newline>'', ''2024-01-01,Y,abc\<newline>''] \<and>
   malformed text_ops ''2024-01-01,X\<newline>'' \<and>
   malformed text_ops ''2024-01-01,Y,abc\<newline>'' \<and>
   (\<exists>fs'. validate_and_prepare text_ops [''/tmp/egx30_2024-01-01.csv'' \<mapsto> raw_all_malformed]
            ''/tmp/egx30_2024-01-01.csv'' ''2024-01-01'' =
          Inr (fs', hql_script_path ''2024-01-01'') \<and>
        fs' (hive_data_path ''2024-01-01'') = Some [])"
proof -
  have stored: "[''/tmp/egx30_2024-01-01.csv'' \<mapsto> raw_all_malformed]
      ''/tmp/egx30_2024-01-01.csv'' = Some raw_all_malformed"
    by simp
  have rows: "data_lines raw_all_malformed =
      [''2024-01-01,X\<newline>'', ''2024-01-01,Y,abc\<newline>'']"
    by (simp add: data_lines_def raw_all_malformed_def)
  have bad1: "malformed text_ops ''2024-01-01,X\<newline>''"
    by (simp add: malformed_def py_strip_def is_space_def)
  have bad2: "malformed text_ops ''2024-01-01,Y,abc\<newline>''"
    by (simp add: malformed_def py_strip_def is_space_def text_ops_def decimal_text_def
        is_digit_def)
  have bad: "\<forall>l \<in> set (data_lines raw_all_malformed). malformed text_ops l"
    unfolding rows using bad1 bad2 by simp
  note inst = empty_clean_dataset_is_accepted
      [of "[''/tmp/egx30_2024-01-01.csv'' \<mapsto> raw_all_malformed]"
          "''/tmp/egx30_2024-01-01.csv''" raw_all_malformed text_ops "''2024-01-01''",
       OF stored bad]
  have "\<exists>fs'. validate_and_prepare text_ops [''/tmp/egx30_2024-01-01.csv'' \<mapsto> raw_all_malformed]
            ''/tmp/egx30_2024-01-01.csv'' ''2024-01-01'' =
          Inr (fs', hql_script_path ''2024-01-01'') \<and>
        fs' (hive_data_path ''2024-01-01'') = Some []"
    using inst by blast
  with stored rows bad1 bad2 show ?thesis by blast
qed

text \<open>
  Claim C10. The clean dataset and the load script that the stage writes are
  functions of the text of the raw artifact and of the run date: two runs on the
  same text and date, from any two states of the files and any two paths of the
  raw artifact, write the same two texts and return the same path.
\<close>

theorem validation_depends_on_content_and_date_only:
  assumes "fs1 p1 = Some content" and "fs2 p2 = Some content"
  shows "\<exists>fs1' fs2'.
           validate_and_prepare ops fs1 p1 d = Inr (fs1', hql_script_path d) \<and>
           validate_and_prepare ops fs2 p2 d = Inr (fs2', hql_script_path d) \<and>
           fs1' (hive_data_path d) = Some (concat (map (hive_line ops) (clean_rows ops content))) \<and>
           fs2' (hive_data_path d) = fs1' (hive_data_path d) \<and>
           fs1' (hql_script_path d) = Some (hql_text (hive_data_path d) d) \<and>
           fs2' (hql_script_path d) = fs1' (hql_script_path d)"
  using validate_and_prepare_files [of fs1 p1 content ops d]
        validate_and_prepare_files [of fs2 p2 content ops d]
        assms output_paths_differ [of d]
  by simp

theorem validation_depends_on_content_and_date_only_witness:
  "[''/tmp/egx30_2024-01-01.csv'' \<mapsto> raw_example] ''/tmp/egx30_2024-01-01.csv'' =
     Some raw_example \<and>
   [''/tmp/other.csv'' \<mapsto> raw_example, ''/tmp/hive_data_2024-01-01.txt'' \<mapsto> ''old'']
     ''/tmp/other.csv'' = Some raw_example \<and>
   (\<exists>fs1' fs2'.
      validate_and_prepare text_ops [''/tmp/egx30_2024-01-01.csv'' \<mapsto> raw_example]
        ''/tmp/egx30_2024-01-01.csv'' ''2024-01-01'' = Inr (fs1', hql_script_path ''2024-01-01'') \<and>
      validate_and_prepare text_ops
        [''/tmp/other.csv'' \<mapsto> raw_example, ''/tmp/hive_data_2024-01-01.txt'' \<mapsto> ''old'']
        ''/tmp/other.csv'' ''2024-01-01'' = Inr (fs2', hql_script_path ''2024-01-01'') \<and>
      fs2' (hive_data_path ''2024-01-01'') = fs1' (hive_data_path ''2024-01-01'') \<and>
      fs2' (hql_script_path ''2024-01-01'') = fs1' (hql_script_path ''2024-01-01''))"
proof -
  have s1: "[''/tmp/egx30_2024-01-01.csv'' \<mapsto> raw_example] ''/tmp/egx30_2024-01-01.csv'' =
     Some raw_example"
    by simp
  have s2: "[''/tmp/other.csv'' \<mapsto> raw_example, ''/tmp/hive_data_2024-01-01.txt'' \<mapsto> ''old'']
     ''/tmp/other.csv'' = Some raw_example"
    by simp
  note inst = validation_depends_on_content_and_date_only
      [of "[''/tmp/egx30_2024-01-01.csv'' \<mapsto> raw_example]" "''/tmp/egx30_2024-01-01.csv''"
          raw_example
          "[''/tmp/other.csv'' \<mapsto> raw_example, ''/tmp/hive_data_2024-01-01.txt'' \<mapsto> ''old'']"
          "''/tmp/other.csv''" text_ops "''2024-01-01''", OF s1 s2]
  have "\<exists>fs1' fs2'.
      validate_and_prepare text_ops [''/tmp/egx30_2024-01-01.csv'' \<mapsto> raw_example]
        ''/tmp/egx30_2024-01-01.csv'' ''2024-01-01'' = Inr (fs1', hql_script_path ''2024-01-01'') \<and>
      validate_and_prepare text_ops
        [''/tmp/other.csv'' \<mapsto> raw_example, ''/tmp/hive_data_2024-01-01.txt'' \<mapsto> ''old'']
        ''/tmp/other.csv'' ''2024-01-01'' = Inr (fs2', hql_script_path ''2024-01-01'') \<and>
      fs2' (hive_data_path ''2024-01-01'') = fs1' (hive_data_path ''2024-01-01'') \<and>
      fs2' (hql_script_path ''2024-01-01'') = fs1' (hql_script_path ''2024-01-01'')"
    using inst by blast
  with s1 s2 show ?thesis by blast
qed

section \<open>The extraction loop\<close>

lemma extract_loop_acc:
  "extract_loop ops fetch d symbols acc = acc @ extract_loop ops fetch d symbols []"
proof (induction symbols arbitrary: acc)
  case Nil
  show ?case by simp
next
  case (Cons s symbols)
  show ?case
  proof (cases "yielded ops fetch d s")
    case None
    then have "extract_loop ops fetch d (s # symbols) a = extract_loop ops fetch d symbols a" for a
      by (auto simp: yielded_def split: sum.splits option.splits)
    then show ?thesis using Cons.IH [of acc] by simp
  next
    case (Some r)
    then have step: "extract_loop ops fetch d (s # symbols) a =
        extract_loop ops fetch d symbols (a @ [r])" for a
      by (auto simp: yielded_def split: sum.splits option.splits)
    show ?thesis
      using step [of acc] step [of "[]"] Cons.IH [of "acc @ [r]"] Cons.IH [of "[r]"] by simp
  qed
qed

lemma extract_loop_map_filter:
  "extract_loop ops fetch d symbols [] = List.map_filter (yielded ops fetch d) symbols"
proof (induction symbols)
  case Nil
  show ?case by simp
next
  case (Cons s symbols)
  show ?case
  proof (cases "yielded ops fetch d s")
    case None
    then have "extract_loop ops fetch d (s # symbols) [] = extract_loop ops fetch d symbols []"
      by (auto simp: yielded_def split: sum.splits option.splits)
    then show ?thesis using None Cons.IH by simp
  next
    case (Some r)
    then have "extract_loop ops fetch d (s # symbols) [] = extract_loop ops fetch d symbols [r]"
      by (auto simp: yielded_def split: sum.splits option.splits)
    then show ?thesis
      using Some Cons.IH extract_loop_acc [of ops fetch d symbols "[r]"]
      by simp
  qed
qed

lemma map_filter_empty_iff:
  "List.map_filter f xs = [] \<longleftrightarrow> (\<forall>x \<in> set xs. f x = None)"
  by (induction xs) (auto split: option.splits)

lemma yielded_fetch_error:
  "fetch (chart_url s) = Inl e \<Longrightarrow> yielded ops fetch d s = None"
  by (simp add: yielded_def try_symbol_def bindE_def)

lemma yielded_no_close:
  assumes "fetch (chart_url s) = Inr data"
    and "first_close ops data = Inl e \<or> first_close ops data = Inr None \<or>
         first_close ops data = Inr (Some JNull)"
  shows "yielded ops fetch d s = None"
  using assms by (auto simp: yielded_def try_symbol_def bindE_def)

lemma yielded_record:
  assumes "yielded ops fetch d s = Some r"
  shows "rec_date r = d \<and> rec_symbol r = py_replace ''.CA'' [] s"
  using assms
  by (auto simp: yielded_def try_symbol_def bindE_def
      split: sum.splits option.splits json.splits)


text \<open>
  Claim C1. The loop collects, symbol by symbol, the record each symbol yields; a
  request that fails, a payload on which a step raises, a missing close and a null
  close yield none, and the loop goes on. The stage raises, with
  \<^verbatim>\<open>ValueError("No data extracted")\<close>, exactly when no configured symbol yields
  a record, and returns the path of the raw artifact otherwise; it raises nothing
  else.
\<close>

theorem extraction_fails_iff_no_record:
  "extract_loop ops fetch d egx_symbols [] = List.map_filter (yielded ops fetch d) egx_symbols \<and>
   (extract_stock_data ops fetch fs d = Inl (ValueError ''No data extracted'') \<longleftrightarrow>
      (\<forall>s \<in> set egx_symbols. yielded ops fetch d s = None)) \<and>
   ((\<exists>fs'. extract_stock_data ops fetch fs d = Inr (fs', csv_path_of d)) \<longleftrightarrow>
      (\<exists>s \<in> set egx_symbols. yielded ops fetch d s \<noteq> None)) \<and>
   (\<forall>e. extract_stock_data ops fetch fs d = Inl e \<longrightarrow> e = ValueError ''No data extracted'') \<and>
   (\<forall>s e. fetch (chart_url s) = Inl e \<longrightarrow> yielded ops fetch d s = None) \<and>
   (\<forall>s data. fetch (chart_url s) = Inr data \<and>
        ((\<exists>e. first_close ops data = Inl e) \<or> first_close ops data = Inr None \<or>
         first_close ops data = Inr (Some JNull)) \<longrightarrow>
        yielded ops fetch d s = None)"
proof -
  have loop: "extract_loop ops fetch d egx_symbols [] =
      List.map_filter (yielded ops fetch d) egx_symbols"
    by (rule extract_loop_map_filter)
  have empty: "extract_loop ops fetch d egx_symbols [] = [] \<longleftrightarrow>
      (\<forall>s \<in> set egx_symbols. yielded ops fetch d s = None)"
    unfolding loop by (rule map_filter_empty_iff)
  have a: "extract_stock_data ops fetch fs d = Inl (ValueError ''No data extracted'') \<longleftrightarrow>
      (\<forall>s \<in> set egx_symbols. yielded ops fetch d s = None)"
    using empty by (simp add: extract_stock_data_def Let_def)
  have b: "(\<exists>fs'. extract_stock_data ops fetch fs d = Inr (fs', csv_path_of d)) \<longleftrightarrow>
      (\<exists>s \<in> set egx_symbols. yielded ops fetch d s \<noteq> None)"
    using empty by (simp add: extract_stock_data_def Let_def)
  have c: "\<forall>e. extract_stock_data ops fetch fs d = Inl e \<longrightarrow> e = ValueError ''No data extracted''"
    by (simp add: extract_stock_data_def Let_def)
  have f: "\<forall>s e. fetch (chart_url s) = Inl e \<longrightarrow> yielded ops fetch d s = None"
    using yielded_fetch_error [of fetch _ _ ops d] by blast
  have g: "\<forall>s data. fetch (chart_url s) = Inr data \<and>
        ((\<exists>e. first_close ops data = Inl e) \<or> first_close ops data = Inr None \<or>
         first_close ops data = Inr (Some JNull)) \<longrightarrow>
        yielded ops fetch d s = None"
    using yielded_no_close [of fetch _ _ ops _ d] by blast
  from loop a b c f g show ?thesis by blast
qed

lemma yielded_unreachable:
  "yielded text_ops fetch_unreachable d s = None"
  by (rule yielded_fetch_error) (simp add: fetch_unreachable_def)

lemma first_close_chart_payload:
  "first_close ops (chart_payload c) =
     (case c of JNull \<Rightarrow> Inr (Some JNull) | _ \<Rightarrow> Inr (Some c))"
  by (cases c) (simp_all add: first_close_def chart_payload_def bindE_def)

lemma yielded_mixed_first:
  "yielded text_ops fetch_mixed ''2024-01-01'' ''EGS01041C010.CA'' =
     Some \<lparr>rec_date = ''2024-01-01'', rec_symbol = ''EGS01041C010'',
           rec_price = PFloat ''123.46''\<rparr>"
  by (simp add: yielded_def try_symbol_def bindE_def fetch_mixed_def
      first_close_chart_payload text_ops_def)

theorem extraction_fails_iff_no_record_witness:
  "extract_stock_data text_ops fetch_unreachable Map.empty ''2024-01-01'' =
     Inl (ValueError ''No data extracted'') \<and>
   yielded text_ops fetch_mixed ''2024-01-01'' ''EGS01041C010.CA'' \<noteq> None \<and>
   (\<exists>fs'. extract_stock_data text_ops fetch_mixed Map.empty ''2024-01-01'' =
      Inr (fs', csv_path_of ''2024-01-01''))"
proof -
  have none: "\<forall>s \<in> set egx_symbols. yielded text_ops fetch_unreachable ''2024-01-01'' s = None"
    by (simp add: yielded_unreachable)
  have one: "yielded text_ops fetch_mixed ''2024-01-01'' ''EGS01041C010.CA'' \<noteq> None"
    by (simp add: yielded_mixed_first)
  have some: "\<exists>s \<in> set egx_symbols. yielded text_ops fetch_mixed ''2024-01-01'' s \<noteq> None"
    using one by (simp add: egx_symbols_def)
  have fails: "extract_stock_data text_ops fetch_unreachable Map.empty ''2024-01-01'' =
     Inl (ValueError ''No data extracted'')"
    using extraction_fails_iff_no_record
      [of text_ops fetch_unreachable "''2024-01-01''" Map.empty] none
    by blast
  have returns: "\<exists>fs'. extract_stock_data text_ops fetch_mixed Map.empty ''2024-01-01'' =
      Inr (fs', csv_path_of ''2024-01-01'')"
    using extraction_fails_iff_no_record
      [of text_ops fetch_mixed "''2024-01-01''" Map.empty] some
    by blast
  from fails one returns show ?thesis by blast
qed

section \<open>Symbol normalisation\<close>

lemma py_replace_at_occurrence:
  assumes "old \<noteq> []"
  shows "py_replace old new (old @ s) = new @ py_replace old new s"
proof -
  obtain c cs where old: "old = c # cs" using assms by (cases old) auto
  have "py_replace old new (c # (cs @ s)) =
      new @ py_replace old new (drop (length old) (c # (cs @ s)))"
    using assms by (simp add: old)
  then show ?thesis by (simp add: old)
qed

lemma py_replace_split:
  assumes "old \<noteq> []"
    and border: "\<And>c a. prefix old ((c # a) @ old @ b) \<longleftrightarrow> prefix old (c # a)"
  shows "py_replace old new (a @ old @ b) =
           py_replace old new a @ new @ py_replace old new b"
proof (induction a rule: length_induct)
  case (1 a)
  show ?case
  proof (cases a)
    case Nil
    then show ?thesis using assms(1) by (simp add: py_replace_at_occurrence)
  next
    case (Cons c a')
    show ?thesis
    proof (cases "prefix old (c # a')")
      case True
      then obtain a'' where a'': "c # a' = old @ a''"
        by (auto simp: prefix_def)
      then have "length a = length old + length a''" using Cons by (metis length_append)
      then have shorter: "length a'' < length a" using assms(1) by simp
      have "py_replace old new (a @ old @ b) = py_replace old new (old @ (a'' @ old @ b))"
        using Cons a'' by simp
      also have "\<dots> = new @ py_replace old new (a'' @ old @ b)"
        using assms(1) by (rule py_replace_at_occurrence)
      also have "\<dots> = (new @ py_replace old new a'') @ new @ py_replace old new b"
        using 1 shorter by simp
      also have "new @ py_replace old new a'' = py_replace old new a"
        using py_replace_at_occurrence [OF assms(1), of new a''] Cons a'' by simp
      finally show ?thesis by simp
    next
      case False
      have shorter: "length a' < length a" using Cons by simp
      have np: "\<not> prefix old (c # (a' @ old @ b))"
        using False border [of c a'] by simp
      have "py_replace old new (a @ old @ b) = py_replace old new (c # (a' @ old @ b))"
        using Cons by simp
      also have "\<dots> = c # py_replace old new (a' @ old @ b)"
        using np assms(1) by simp
      also have "\<dots> = (c # py_replace old new a') @ new @ py_replace old new b"
        using 1 shorter by simp
      also have "c # py_replace old new a' = py_replace old new a"
        using False assms(1) unfolding Cons by simp
      finally show ?thesis by simp
    qed
  qed
qed

lemma prefix_CA_append:
  "prefix ''.CA'' ((c # a) @ ''.CA'' @ b) \<longleftrightarrow> prefix ''.CA'' (c # a)"
proof (cases a)
  case Nil
  then show ?thesis by auto
next
  case (Cons x xs)
  then show ?thesis by (cases xs) auto
qed

lemma replace_CA_split:
  "py_replace ''.CA'' [] (a @ ''.CA'' @ b) = py_replace ''.CA'' [] a @ py_replace ''.CA'' [] b"
  using py_replace_split [of "''.CA''" b "[]" a] prefix_CA_append [of _ _ b] by simp

text \<open>
  Claim C9. Normalisation deletes every occurrence of \<^verbatim>\<open>.CA\<close> in the symbol,
  wherever it stands: around any occurrence the result is the normalised text before
  it followed by the normalised text after it. A symbol with \<^verbatim>\<open>.CA\<close> inside
  loses those characters too, which stripping a suffix would keep.
\<close>

theorem replace_removes_every_occurrence:
  "py_replace ''.CA'' [] (a @ ''.CA'' @ b) = py_replace ''.CA'' [] a @ py_replace ''.CA'' [] b \<and>
   py_replace ''.CA'' [] ''AB.CAXY.CA'' = ''ABXY'' \<and>
   py_replace ''.CA'' [] ''AB.CAXY.CA'' \<noteq> ''AB.CAXY''"
  using replace_CA_split [of a b] by simp


lemma configured_symbols_normalised:
  "map (py_replace ''.CA'' []) egx_symbols =
     [''EGS01041C010'', ''EGS01071C017'', ''EGS01081C016'',
      ''EGS02021C011'', ''EGS02051C018'', ''EGS02091C014'',
      ''EGS02211C018'', ''EGS02291C010'', ''EGS07061C012'']"
  by (simp add: egx_symbols_def)

lemma configured_symbol_suffix:
  "s \<in> set egx_symbols \<Longrightarrow> py_replace ''.CA'' [] s @ ''.CA'' = s"
  by (auto simp: egx_symbols_def)

lemma extract_loop_records:
  assumes "r \<in> set (extract_loop ops fetch d symbols [])"
  shows "\<exists>s \<in> set symbols. yielded ops fetch d s = Some r"
proof -
  have "r \<in> set (List.map_filter (yielded ops fetch d) symbols)"
    using assms by (simp add: extract_loop_map_filter)
  then show ?thesis
    by (auto simp: List.map_filter_def)
qed

lemma extract_stock_data_files:
  assumes "extract_loop ops fetch d egx_symbols [] \<noteq> []"
  shows "extract_stock_data ops fetch fs d =
           Inr (fs(csv_path_of d \<mapsto> csv_text ops (extract_loop ops fetch d egx_symbols [])),
                csv_path_of d)"
  using assms by (simp add: extract_stock_data_def Let_def)

lemma py_lines_line:
  "CHR 0x0A \<notin> set b \<Longrightarrow> py_lines (b @ CHR 0x0A # rest) = (b @ [CHR 0x0A]) # py_lines rest"
  by (induction b) auto

lemma py_lines_concat:
  assumes "\<forall>b \<in> set bodies. CHR 0x0A \<notin> set b"
  shows "py_lines (concat (map (\<lambda>b. b @ [CHR 0x0A]) bodies)) = map (\<lambda>b. b @ [CHR 0x0A]) bodies"
  using assms
proof (induction bodies)
  case Nil
  show ?case by simp
next
  case (Cons b bodies)
  then show ?case using py_lines_line [of b "concat (map (\<lambda>b. b @ [CHR 0x0A]) bodies)"] by simp
qed

lemma py_strip_line:
  assumes "b \<noteq> []" and "\<not> is_space (hd b)" and "\<not> is_space (last b)"
  shows "py_strip (b @ [CHR 0x0A]) = b"
proof -
  have nl: "is_space (CHR 0x0A)" by (simp add: is_space_def)
  obtain c cs where b: "b = c # cs" using assms(1) by (cases b) auto
  have front: "dropWhile is_space (b @ [CHR 0x0A]) = b @ [CHR 0x0A]"
    using assms(2) by (simp add: b)
  obtain x xs where rb: "rev b = x # xs" using assms(1) by (cases "rev b") auto
  have "x = last b" using rb assms(1) by (metis hd_rev list.sel(1))
  then have nx: "\<not> is_space x" using assms(3) by simp
  have "dropWhile is_space (rev (b @ [CHR 0x0A])) = dropWhile is_space (CHR 0x0A # x # xs)"
    by (simp add: rb)
  also have "\<dots> = x # xs" using nl nx by simp
  finally have trailing: "dropWhile is_space (rev (b @ [CHR 0x0A])) = rev b"
    by (simp add: rb)
  show ?thesis unfolding py_strip_def front trailing by simp
qed

lemma py_split_plain:
  "CHR '','' \<notin> set a \<Longrightarrow> py_split a = [a]"
  by (induction a) auto

lemma py_split_field:
  "CHR '','' \<notin> set a \<Longrightarrow> py_split (a @ CHR '','' # rest) = a # py_split rest"
  by (induction a) auto

lemma plain_text_no_comma: "plain_text s \<Longrightarrow> CHR '','' \<notin> set s"
  by (auto simp: plain_text_def list_all_iff)

lemma plain_text_no_space: "plain_text s \<Longrightarrow> c \<in> set s \<Longrightarrow> \<not> is_space c"
  by (auto simp: plain_text_def list_all_iff)

lemma csv_body_parts:
  assumes "plain_text a" and "CHR '','' \<notin> set b" and "plain_text p"
  shows "py_split (py_strip (a @ '','' @ b @ '','' @ p @ ''\<newline>'')) = [a, b, p]"
proof -
  let ?body = "a @ '','' @ b @ '','' @ p"
  have ne: "?body \<noteq> []" by simp
  have comma: "\<not> is_space (CHR '','')" by (simp add: is_space_def)
  have h: "\<not> is_space (hd ?body)"
    using assms(1) comma by (cases a) (auto dest: plain_text_no_space)
  have "last ?body = (if p = [] then CHR '','' else last p)" by simp
  then have l: "\<not> is_space (last ?body)"
    using assms(3) comma plain_text_no_space [of p "last p"] by auto
  have "py_strip (?body @ [CHR 0x0A]) = ?body"
    using ne h l by (rule py_strip_line)
  then have strip: "py_strip (a @ '','' @ b @ '','' @ p @ ''\<newline>'') = ?body" by simp
  have "py_split ?body = a # py_split (b @ '','' @ p)"
    using py_split_field [of a "b @ '','' @ p"] plain_text_no_comma [OF assms(1)] by simp
  also have "py_split (b @ '','' @ p) = b # py_split p"
    using py_split_field [of b p] assms(2) by simp
  also have "py_split p = [p]"
    using plain_text_no_comma [OF assms(3)] by (rule py_split_plain)
  finally show ?thesis unfolding strip .
qed


lemma normalised_symbol_plain:
  "s \<in> set egx_symbols \<Longrightarrow> plain_text (py_replace ''.CA'' [] s)"
  by (auto simp: egx_symbols_def plain_text_def is_space_def)

lemma csv_line_parts:
  assumes "plain_text (rec_date r)" and "plain_text (rec_symbol r)"
    and "plain_text (str_of_number ops (rec_price r))"
  shows "py_split (py_strip (csv_line ops r)) =
           [rec_date r, rec_symbol r, str_of_number ops (rec_price r)]"
  unfolding csv_line_def
  using csv_body_parts [OF assms(1) plain_text_no_comma [OF assms(2)] assms(3)] .

lemma read_rows_csv_lines:
  assumes "\<forall>r \<in> set recs. plain_text (rec_date r) \<and> plain_text (rec_symbol r) \<and>
             plain_text (str_of_number ops (rec_price r))"
  shows "map row_symbol (read_rows ops (map (csv_line ops) recs) []) =
           map rec_symbol
             (filter (\<lambda>r. float_of_str ops (str_of_number ops (rec_price r)) \<noteq> None) recs)"
  using assms
proof (induction recs)
  case Nil
  show ?case by simp
next
  case (Cons r recs)
  have parts: "py_split (py_strip (csv_line ops r)) =
      [rec_date r, rec_symbol r, str_of_number ops (rec_price r)]"
    using Cons.prems by (simp add: csv_line_parts)
  have one: "map row_symbol (read_rows ops [csv_line ops r] []) =
      (if float_of_str ops (str_of_number ops (rec_price r)) \<noteq> None then [rec_symbol r] else [])"
    by (auto simp: parts)
  have "read_rows ops (map (csv_line ops) (r # recs)) [] =
      read_rows ops [csv_line ops r] [] @ read_rows ops (map (csv_line ops) recs) []"
    using read_rows_Cons [of ops "csv_line ops r" "map (csv_line ops) recs"] by simp
  then show ?case using one Cons by simp
qed

lemma csv_text_lines:
  assumes "\<forall>r \<in> set recs. plain_text (rec_date r) \<and> plain_text (rec_symbol r) \<and>
             plain_text (str_of_number ops (rec_price r))"
  shows "data_lines (csv_text ops recs) = map (csv_line ops) recs"
proof -
  let ?body = "\<lambda>r. rec_date r @ '','' @ rec_symbol r @ '','' @ str_of_number ops (rec_price r)"
  have nl: "is_space (CHR 0x0A)" by (simp add: is_space_def)
  have plain: "CHR 0x0A \<notin> set t" if "plain_text t" for t
    using that nl plain_text_no_space [of t "CHR 0x0A"] by blast
  have line: "csv_line ops = (\<lambda>r. ?body r @ [CHR 0x0A])"
    by (rule ext) (simp add: csv_line_def)
  have bodies: "\<forall>b \<in> set (map ?body recs). CHR 0x0A \<notin> set b"
    using assms plain by auto
  have "concat (map (csv_line ops) recs) = concat (map (\<lambda>b. b @ [CHR 0x0A]) (map ?body recs))"
    unfolding line by (simp add: comp_def)
  then have "py_lines (concat (map (csv_line ops) recs)) = map (\<lambda>b. b @ [CHR 0x0A]) (map ?body recs)"
    using py_lines_concat [OF bodies] by simp
  then have rest: "py_lines (concat (map (csv_line ops) recs)) = map (csv_line ops) recs"
    unfolding line by (simp add: comp_def)
  have "py_lines (csv_text ops recs) =
      (''date,stock_symbol,price'' @ [CHR 0x0A]) # py_lines (concat (map (csv_line ops) recs))"
    unfolding csv_text_def
    using py_lines_line [of "''date,stock_symbol,price''" "concat (map (csv_line ops) recs)"]
    by simp
  then show ?thesis unfolding data_lines_def rest by simp
qed

lemma extract_loop_plain:
  assumes "r \<in> set (extract_loop ops fetch d egx_symbols [])"
  shows "rec_date r = d \<and> plain_text (rec_symbol r) \<and> rec_symbol r @ ''.CA'' \<in> set egx_symbols"
proof -
  obtain s where s: "s \<in> set egx_symbols" and y: "yielded ops fetch d s = Some r"
    using extract_loop_records [OF assms] by blast
  show ?thesis
    using yielded_record [OF y] normalised_symbol_plain [OF s] configured_symbol_suffix [OF s]
      s by simp
qed

lemma raw_artifact_read_back:
  assumes "plain_text d"
    and "\<forall>r \<in> set (extract_loop ops fetch d egx_symbols []).
           plain_text (str_of_number ops (rec_price r))"
  shows "map row_symbol (raw_rows ops (csv_text ops (extract_loop ops fetch d egx_symbols []))) =
           map rec_symbol
             (filter (\<lambda>r. float_of_str ops (str_of_number ops (rec_price r)) \<noteq> None)
                (extract_loop ops fetch d egx_symbols []))"
proof -
  let ?recs = "extract_loop ops fetch d egx_symbols []"
  have ok: "\<forall>r \<in> set ?recs. plain_text (rec_date r) \<and> plain_text (rec_symbol r) \<and>
             plain_text (str_of_number ops (rec_price r))"
    using assms extract_loop_plain [of _ ops fetch d] by simp
  show ?thesis
    unfolding raw_rows_def csv_text_lines [OF ok] by (rule read_rows_csv_lines [OF ok])
qed


lemma csv_text_rows:
  "csv_text ops (extract_loop ops fetch d egx_symbols []) =
     ''date,stock_symbol,price\<newline>'' @
     concat (map (\<lambda>r. d @ '','' @ rec_symbol r @ '','' @ str_of_number ops (rec_price r) @
                       ''\<newline>'')
               (extract_loop ops fetch d egx_symbols []))"
proof -
  have "csv_line ops r =
      d @ '','' @ rec_symbol r @ '','' @ str_of_number ops (rec_price r) @ ''\<newline>''"
    if "r \<in> set (extract_loop ops fetch d egx_symbols [])" for r
    using extract_loop_plain [OF that] by (simp add: csv_line_def)
  then have "map (csv_line ops) (extract_loop ops fetch d egx_symbols []) =
      map (\<lambda>r. d @ '','' @ rec_symbol r @ '','' @ str_of_number ops (rec_price r) @ ''\<newline>'')
        (extract_loop ops fetch d egx_symbols [])"
    by (simp cong: map_cong)
  then show ?thesis unfolding csv_text_def by (simp only:)
qed

text \<open>
  Claim C6. Every configured symbol is its normalised form followed by
  \<^verbatim>\<open>.CA\<close>, and the record of a symbol stores the normalised form:
  \<^verbatim>\<open>EGS01041C010.CA\<close> is recorded as \<^verbatim>\<open>EGS01041C010\<close>. The raw artifact
  that the extraction stage writes is the header followed by one row
  \<^verbatim>\<open>date,symbol,price\<close> per record, with that symbol. When the run date and
  the printed prices hold no comma and no whitespace, the validation stage reads
  back from this file exactly the symbols of the records whose price \<^verbatim>\<open>float\<close>
  accepts, and every symbol of the clean dataset it writes is a normalised
  configured symbol.
\<close>

theorem recorded_symbol_is_normalised:
  "(\<forall>s \<in> set egx_symbols. py_replace ''.CA'' [] s @ ''.CA'' = s) \<and>
   py_replace ''.CA'' [] ''EGS01041C010.CA'' = ''EGS01041C010'' \<and>
   (yielded ops fetch d s = Some r \<longrightarrow> rec_symbol r = py_replace ''.CA'' [] s) \<and>
   (\<forall>r \<in> set (extract_loop ops fetch d egx_symbols []).
      rec_symbol r @ ''.CA'' \<in> set egx_symbols \<and>
      csv_line ops r =
        d @ '','' @ rec_symbol r @ '','' @ str_of_number ops (rec_price r) @ ''\<newline>'') \<and>
   (extract_stock_data ops fetch fs d = Inr (fs', p) \<longrightarrow>
      p = csv_path_of d \<and>
      fs' p =
        Some (''date,stock_symbol,price\<newline>'' @
              concat (map (\<lambda>r. d @ '','' @ rec_symbol r @ '','' @
                                str_of_number ops (rec_price r) @ ''\<newline>'')
                        (extract_loop ops fetch d egx_symbols []))) \<and>
      (plain_text d \<and>
       (\<forall>r \<in> set (extract_loop ops fetch d egx_symbols []).
          plain_text (str_of_number ops (rec_price r))) \<longrightarrow>
       (\<exists>content fs''.
          fs' p = Some content \<and>
          map row_symbol (raw_rows ops content) =
            map rec_symbol
              (filter (\<lambda>r. float_of_str ops (str_of_number ops (rec_price r)) \<noteq> None)
                 (extract_loop ops fetch d egx_symbols [])) \<and>
          (\<forall>row \<in> set (clean_rows ops content). row_symbol row @ ''.CA'' \<in> set egx_symbols) \<and>
          validate_and_prepare ops fs' p d = Inr (fs'', hql_script_path d) \<and>
          fs'' (hive_data_path d) =
            Some (concat (map (\<lambda>row. row_symbol row @ '','' @
                                     str_of_float ops (row_price row) @ ''\<newline>'')
                            (clean_rows ops content))))))"
proof -
  let ?recs = "extract_loop ops fetch d egx_symbols []"
  let ?content = "csv_text ops ?recs"
  have a: "\<forall>s \<in> set egx_symbols. py_replace ''.CA'' [] s @ ''.CA'' = s"
    using configured_symbol_suffix by blast
  have b: "py_replace ''.CA'' [] ''EGS01041C010.CA'' = ''EGS01041C010''"
    by simp
  have c: "yielded ops fetch d s = Some r \<longrightarrow> rec_symbol r = py_replace ''.CA'' [] s"
    using yielded_record [of ops fetch d s r] by blast
  have e: "\<forall>x \<in> set ?recs. rec_symbol x @ ''.CA'' \<in> set egx_symbols \<and>
      csv_line ops x =
        d @ '','' @ rec_symbol x @ '','' @ str_of_number ops (rec_price x) @ ''\<newline>''"
    using extract_loop_plain [of _ ops fetch d] by (simp add: csv_line_def)
  have f: "p = csv_path_of d \<and>
      fs' p =
        Some (''date,stock_symbol,price\<newline>'' @
              concat (map (\<lambda>r. d @ '','' @ rec_symbol r @ '','' @
                                str_of_number ops (rec_price r) @ ''\<newline>'')
                        ?recs)) \<and>
      (plain_text d \<and> (\<forall>r \<in> set ?recs. plain_text (str_of_number ops (rec_price r))) \<longrightarrow>
       (\<exists>content fs''.
          fs' p = Some content \<and>
          map row_symbol (raw_rows ops content) =
            map rec_symbol
              (filter (\<lambda>r. float_of_str ops (str_of_number ops (rec_price r)) \<noteq> None) ?recs) \<and>
          (\<forall>row \<in> set (clean_rows ops content). row_symbol row @ ''.CA'' \<in> set egx_symbols) \<and>
          validate_and_prepare ops fs' p d = Inr (fs'', hql_script_path d) \<and>
          fs'' (hive_data_path d) =
            Some (concat (map (\<lambda>row. row_symbol row @ '','' @
                                     str_of_float ops (row_price row) @ ''\<newline>'')
                            (clean_rows ops content)))))"
    if ret: "extract_stock_data ops fetch fs d = Inr (fs', p)"
  proof -
    have ne: "?recs \<noteq> []"
      using ret by (auto simp: extract_stock_data_def Let_def split: if_splits)
    have "Inr (fs(csv_path_of d \<mapsto> ?content), csv_path_of d) =
        (Inr (fs', p) :: py_error + files \<times> string)"
      by (rule trans [OF extract_stock_data_files [OF ne, symmetric] ret])
    then have eqs: "fs(csv_path_of d \<mapsto> ?content) = fs' \<and> csv_path_of d = p"
      by auto
    from eqs have res: "fs' = fs(csv_path_of d \<mapsto> ?content)"
      by (rule conjunct1 [THEN sym])
    from eqs have path: "p = csv_path_of d"
      by (rule conjunct2 [THEN sym])
    have stored: "fs' p = Some ?content"
      by (simp add: res path)
    have shape: "fs' p =
        Some (''date,stock_symbol,price\<newline>'' @
              concat (map (\<lambda>r. d @ '','' @ rec_symbol r @ '','' @
                                str_of_number ops (rec_price r) @ ''\<newline>'')
                        ?recs))"
      using stored csv_text_rows [of ops fetch d] by simp
    have readback: "\<exists>content fs''.
          fs' p = Some content \<and>
          map row_symbol (raw_rows ops content) =
            map rec_symbol
              (filter (\<lambda>r. float_of_str ops (str_of_number ops (rec_price r)) \<noteq> None) ?recs) \<and>
          (\<forall>row \<in> set (clean_rows ops content). row_symbol row @ ''.CA'' \<in> set egx_symbols) \<and>
          validate_and_prepare ops fs' p d = Inr (fs'', hql_script_path d) \<and>
          fs'' (hive_data_path d) =
            Some (concat (map (\<lambda>row. row_symbol row @ '','' @
                                     str_of_float ops (row_price row) @ ''\<newline>'')
                            (clean_rows ops content)))"
      if pd: "plain_text d"
        and pp: "\<forall>r \<in> set ?recs. plain_text (str_of_number ops (rec_price r))"
    proof -
      have syms: "map row_symbol (raw_rows ops ?content) =
            map rec_symbol
              (filter (\<lambda>r. float_of_str ops (str_of_number ops (rec_price r)) \<noteq> None) ?recs)"
        using pd pp by (rule raw_artifact_read_back)
      have "set (map row_symbol (clean_rows ops ?content)) =
          set (map row_symbol (raw_rows ops ?content))"
        unfolding clean_rows_def
        using remove_duplicates_symbols [of "raw_rows ops ?content" "{}"] by simp
      then have "set (map row_symbol (clean_rows ops ?content)) \<subseteq> rec_symbol ` set ?recs"
        unfolding syms by auto
      then have norm: "\<forall>row \<in> set (clean_rows ops ?content).
          row_symbol row @ ''.CA'' \<in> set egx_symbols"
        using extract_loop_plain [of _ ops fetch d] by auto
      have lines: "hive_line ops = (\<lambda>row. row_symbol row @ '','' @
          str_of_float ops (row_price row) @ ''\<newline>'')"
        by (rule ext) (simp add: hive_line_def)
      have run: "validate_and_prepare ops fs' p d =
          Inr (fs'(hive_data_path d \<mapsto> concat (map (hive_line ops) (clean_rows ops ?content)),
                   hql_script_path d \<mapsto> hql_text (hive_data_path d) d),
               hql_script_path d)"
        using validate_and_prepare_files [of fs' p ?content ops d] stored by simp
      have out: "(fs'(hive_data_path d \<mapsto> concat (map (hive_line ops) (clean_rows ops ?content)),
                   hql_script_path d \<mapsto> hql_text (hive_data_path d) d)) (hive_data_path d) =
          Some (concat (map (\<lambda>row. row_symbol row @ '','' @
                                     str_of_float ops (row_price row) @ ''\<newline>'')
                            (clean_rows ops ?content)))"
        using output_paths_differ [of d] unfolding lines by simp
      from stored syms norm run out show ?thesis by blast
    qed
    from path shape readback show ?thesis by blast
  qed
  from a b c e f show ?thesis by blast
qed

lemma yielded_mixed_second:
  "yielded text_ops fetch_mixed d ''EGS01071C017.CA'' = None"
  by (simp add: yielded_def try_symbol_def bindE_def fetch_mixed_def chart_url_def
      first_close_chart_payload)

lemma yielded_mixed_other:
  "s \<noteq> ''EGS01041C010.CA'' \<Longrightarrow> s \<noteq> ''EGS01071C017.CA'' \<Longrightarrow>
     yielded text_ops fetch_mixed d s = None"
  by (rule yielded_fetch_error [of _ _ URLError]) (simp add: fetch_mixed_def chart_url_def)

lemma extract_loop_mixed:
  "extract_loop text_ops fetch_mixed ''2024-01-01'' egx_symbols [] =
     [\<lparr>rec_date = ''2024-01-01'', rec_symbol = ''EGS01041C010'',
       rec_price = PFloat ''123.46''\<rparr>]"
  unfolding extract_loop_map_filter
  by (simp add: egx_symbols_def yielded_mixed_first yielded_mixed_second yielded_mixed_other)

lemma raw_mixed_clean_rows:
  "clean_rows text_ops ''date,stock_symbol,price\<newline>2024-01-01,EGS01041C010,123.46\<newline>'' =
     [\<lparr>row_symbol = ''EGS01041C010'', row_price = ''123.46''\<rparr>]"
  by (simp add: clean_rows_def raw_rows_def data_lines_def py_strip_def is_space_def
      text_ops_def decimal_text_def is_digit_def)

theorem recorded_symbol_is_normalised_witness:
  "\<lparr>rec_date = ''2024-01-01'', rec_symbol = ''EGS01041C010'', rec_price = PFloat ''123.46''\<rparr>
     \<in> set (extract_loop text_ops fetch_mixed ''2024-01-01'' egx_symbols []) \<and>
   ''EGS01041C010'' @ ''.CA'' \<in> set egx_symbols \<and>
   extract_stock_data text_ops fetch_mixed Map.empty ''2024-01-01'' =
     Inr ([csv_path_of ''2024-01-01'' \<mapsto>
             ''date,stock_symbol,price\<newline>2024-01-01,EGS01041C010,123.46\<newline>''],
          csv_path_of ''2024-01-01'') \<and>
   plain_text ''2024-01-01'' \<and>
   plain_text (str_of_number text_ops (PFloat ''123.46'')) \<and>
   (\<exists>fs''. validate_and_prepare text_ops
              [csv_path_of ''2024-01-01'' \<mapsto>
                 ''date,stock_symbol,price\<newline>2024-01-01,EGS01041C010,123.46\<newline>'']
              (csv_path_of ''2024-01-01'') ''2024-01-01'' =
            Inr (fs'', hql_script_path ''2024-01-01'') \<and>
          fs'' (hive_data_path ''2024-01-01'') = Some ''EGS01041C010,123.46\<newline>'')"
proof -
  let ?r = "\<lparr>rec_date = ''2024-01-01'', rec_symbol = ''EGS01041C010'',
             rec_price = PFloat ''123.46'' :: string number\<rparr>"
  let ?text = "''date,stock_symbol,price\<newline>2024-01-01,EGS01041C010,123.46\<newline>''"
  let ?fs' = "[csv_path_of ''2024-01-01'' \<mapsto> ?text]"
  note inst = recorded_symbol_is_normalised
      [of text_ops fetch_mixed "''2024-01-01''" "''EGS01041C010.CA''" ?r Map.empty ?fs'
          "csv_path_of ''2024-01-01''"]
  have mem: "?r \<in> set (extract_loop text_ops fetch_mixed ''2024-01-01'' egx_symbols [])"
    by (simp add: extract_loop_mixed)
  have "\<forall>r \<in> set (extract_loop text_ops fetch_mixed ''2024-01-01'' egx_symbols []).
      rec_symbol r @ ''.CA'' \<in> set egx_symbols \<and>
      csv_line text_ops r =
        ''2024-01-01'' @ '','' @ rec_symbol r @ '','' @
        str_of_number text_ops (rec_price r) @ ''\<newline>''"
    using inst by blast
  from this mem have "rec_symbol ?r @ ''.CA'' \<in> set egx_symbols \<and>
      csv_line text_ops ?r =
        ''2024-01-01'' @ '','' @ rec_symbol ?r @ '','' @
        str_of_number text_ops (rec_price ?r) @ ''\<newline>''"
    by blast
  then have sym: "''EGS01041C010'' @ ''.CA'' \<in> set egx_symbols" by simp
  have ret: "extract_stock_data text_ops fetch_mixed Map.empty ''2024-01-01'' =
      Inr (?fs', csv_path_of ''2024-01-01'')"
    unfolding extract_stock_data_def Let_def extract_loop_mixed
    by (simp add: csv_text_def csv_line_def text_ops_def)
  have pd: "plain_text ''2024-01-01''"
    by (simp add: plain_text_def is_space_def)
  have pp: "plain_text (str_of_number text_ops (PFloat ''123.46''))"
    by (simp add: plain_text_def is_space_def text_ops_def)
  have pall: "\<forall>r \<in> set (extract_loop text_ops fetch_mixed ''2024-01-01'' egx_symbols []).
      plain_text (str_of_number text_ops (rec_price r))"
    using pp by (simp add: extract_loop_mixed)
  have "\<exists>content fs''.
      ?fs' (csv_path_of ''2024-01-01'') = Some content \<and>
      validate_and_prepare text_ops ?fs' (csv_path_of ''2024-01-01'') ''2024-01-01'' =
        Inr (fs'', hql_script_path ''2024-01-01'') \<and>
      fs'' (hive_data_path ''2024-01-01'') =
        Some (concat (map (\<lambda>row. row_symbol row @ '','' @
                                 str_of_float text_ops (row_price row) @ ''\<newline>'')
                        (clean_rows text_ops content)))"
    using inst ret pd pall by blast
  then obtain fs'' where
    run: "validate_and_prepare text_ops ?fs' (csv_path_of ''2024-01-01'') ''2024-01-01'' =
        Inr (fs'', hql_script_path ''2024-01-01'')"
    and out: "fs'' (hive_data_path ''2024-01-01'') =
        Some (concat (map (\<lambda>row. row_symbol row @ '','' @
                                 str_of_float text_ops (row_price row) @ ''\<newline>'')
                        (clean_rows text_ops ?text)))"
    by auto
  have "fs'' (hive_data_path ''2024-01-01'') = Some ''EGS01041C010,123.46\<newline>''"
    unfolding out raw_mixed_clean_rows by (simp add: text_ops_def)
  with run have clean: "\<exists>fs''. validate_and_prepare text_ops ?fs' (csv_path_of ''2024-01-01'')
        ''2024-01-01'' = Inr (fs'', hql_script_path ''2024-01-01'') \<and>
      fs'' (hive_data_path ''2024-01-01'') = Some ''EGS01041C010,123.46\<newline>''"
    by blast
  from mem sym ret pd pp clean show ?thesis by blast
qed

lemma yielded_close_5_first:
  "yielded text_ops fetch_close_5 ''2024-01-01'' ''EGS01041C010.CA'' =
     Some \<lparr>rec_date = ''2024-01-01'', rec_symbol = ''EGS01041C010'', rec_price = PInt 5\<rparr>"
  by (simp add: yielded_def try_symbol_def bindE_def fetch_close_5_def
      first_close_chart_payload)

lemma yielded_close_5_other:
  "s \<noteq> ''EGS01041C010.CA'' \<Longrightarrow> yielded text_ops fetch_close_5 d s = None"
  by (rule yielded_fetch_error [of _ _ TimeoutError]) (simp add: fetch_close_5_def chart_url_def)

lemma extract_loop_close_5:
  "extract_loop text_ops fetch_close_5 ''2024-01-01'' egx_symbols [] =
     [\<lparr>rec_date = ''2024-01-01'', rec_symbol = ''EGS01041C010'', rec_price = PInt 5\<rparr>]"
  unfolding extract_loop_map_filter
  by (simp add: egx_symbols_def yielded_close_5_first yielded_close_5_other)

section \<open>The recorded price\<close>






section \<open>The load script\<close>

text \<open>
  Claim C7. The text of the load script is, in this order, the statement creating
  the staging table with its two columns, the statement creating the target table
  partitioned by \<^verbatim>\<open>trade_date\<close> and stored as compressed ORC, the truncation of
  the staging table, the load of the clean dataset file into staging, the drop of
  the partition of the run date if it exists, the insert from staging into that
  partition and the query counting the rows of that partition, each after its
  comment line. The stage writes this text with the path of the clean dataset and
  the run date in it.
\<close>

theorem load_script_statements_in_order:
  "hql_text hive_data d =
     ''\<newline>-- Step 1: Create staging table (TEXT format for CSV)\<newline>'' @
     stmt_create_staging @
     ''\<newline>\<newline>-- Step 2: Create final ORC table (partitioned)\<newline>'' @
     stmt_create_target @
     ''\<newline>\<newline>-- Step 3: Clear staging\<newline>'' @
     stmt_truncate @
     ''\<newline>\<newline>-- Step 4: Load CSV into staging\<newline>'' @
     stmt_load hive_data @
     ''\<newline>\<newline>-- Step 5: Drop old partition\<newline>'' @
     stmt_drop_partition d @
     ''\<newline>\<newline>-- Step 6: Insert from staging to final table\<newline>'' @
     stmt_insert d @
     ''\<newline>\<newline>-- Step 7: Verify\<newline>'' @
     stmt_verify d @
     ''\<newline>'' \<and>
   (fs csv_path = Some content \<longrightarrow>
      (\<exists>fs'. validate_and_prepare ops fs csv_path d = Inr (fs', hql_script_path d) \<and>
             fs' (hql_script_path d) = Some (hql_text (hive_data_path d) d)))"
proof -
  have script: "hql_text hive_data d =
     ''\<newline>-- Step 1: Create staging table (TEXT format for CSV)\<newline>'' @
     stmt_create_staging @
     ''\<newline>\<newline>-- Step 2: Create final ORC table (partitioned)\<newline>'' @
     stmt_create_target @
     ''\<newline>\<newline>-- Step 3: Clear staging\<newline>'' @
     stmt_truncate @
     ''\<newline>\<newline>-- Step 4: Load CSV into staging\<newline>'' @
     stmt_load hive_data @
     ''\<newline>\<newline>-- Step 5: Drop old partition\<newline>'' @
     stmt_drop_partition d @
     ''\<newline>\<newline>-- Step 6: Insert from staging to final table\<newline>'' @
     stmt_insert d @
     ''\<newline>\<newline>-- Step 7: Verify\<newline>'' @
     stmt_verify d @
     ''\<newline>''"
    by (simp add: hql_text_def stmt_create_staging_def stmt_create_target_def
        stmt_truncate_def stmt_load_def stmt_drop_partition_def stmt_insert_def
        stmt_verify_def)
  have written: "fs csv_path = Some content \<longrightarrow>
      (\<exists>fs'. validate_and_prepare ops fs csv_path d = Inr (fs', hql_script_path d) \<and>
             fs' (hql_script_path d) = Some (hql_text (hive_data_path d) d))"
    using validate_and_prepare_files [of fs csv_path content ops d] by simp
  from script written show ?thesis by (rule conjI)
qed

theorem load_script_statements_in_order_witness:
  "[''/tmp/egx30_2024-01-01.csv'' \<mapsto> raw_example] ''/tmp/egx30_2024-01-01.csv'' =
     Some raw_example \<and>
   (\<exists>fs'. validate_and_prepare text_ops [''/tmp/egx30_2024-01-01.csv'' \<mapsto> raw_example]
            ''/tmp/egx30_2024-01-01.csv'' ''2024-01-01'' =
          Inr (fs', hql_script_path ''2024-01-01'') \<and>
        fs' (hql_script_path ''2024-01-01'') =
          Some (hql_text (hive_data_path ''2024-01-01'') ''2024-01-01''))"
proof -
  have stored:
    "[''/tmp/egx30_2024-01-01.csv'' \<mapsto> raw_example] ''/tmp/egx30_2024-01-01.csv'' =
       Some raw_example"
    by simp
  note inst = load_script_statements_in_order
      [of "hive_data_path ''2024-01-01''" "''2024-01-01''"
          "[''/tmp/egx30_2024-01-01.csv'' \<mapsto> raw_example]" "''/tmp/egx30_2024-01-01.csv''"
          raw_example text_ops]
  have "\<exists>fs'. validate_and_prepare text_ops [''/tmp/egx30_2024-01-01.csv'' \<mapsto> raw_example]
            ''/tmp/egx30_2024-01-01.csv'' ''2024-01-01'' =
          Inr (fs', hql_script_path ''2024-01-01'') \<and>
        fs' (hql_script_path ''2024-01-01'') =
          Some (hql_text (hive_data_path ''2024-01-01'') ''2024-01-01'')"
    using inst stored by blast
  with stored show ?thesis by blast
qed

end
